theory Spec2Isabelle
  imports Complex_Main
begin

section \<open>Thrown values, outcomes and sequencing\<close>

text \<open>
  A JavaScript \<^verbatim>\<open>throw\<close> carries either an \<^verbatim>\<open>Error\<close> object, of which the code reads
  the \<^verbatim>\<open>message\<close>, or some other value, of which the code reads \<^verbatim>\<open>String(error)\<close>.
\<close>

datatype thrown = Error string | NonError string

fun instanceofError :: "thrown \<Rightarrow> bool" where
  "instanceofError (Error m) = True"
| "instanceofError (NonError v) = False"

fun message :: "thrown \<Rightarrow> string" where
  "message (Error m) = m"
| "message (NonError v) = []"

text \<open>\<^verbatim>\<open>error instanceof Error ? error.message : String(error)\<close>\<close>

fun errorText :: "thrown \<Rightarrow> string" where
  "errorText (Error m) = m"
| "errorText (NonError v) = v"

text \<open>
  An awaited asynchronous call returns, throws, or never settles. A method of the
  program is a function from the state to an outcome and the state it leaves.
\<close>

datatype 'a outcome = Returned 'a | Threw thrown | Pending

type_synonym ('s, 'a) prog = "'s \<Rightarrow> 'a outcome \<times> 's"

definition returnM :: "'a \<Rightarrow> ('s, 'a) prog" where
  "returnM x s = (Returned x, s)"

definition throwM :: "thrown \<Rightarrow> ('s, 'a) prog" where
  "throwM e s = (Threw e, s)"

definition bindM :: "('s, 'a) prog \<Rightarrow> ('a \<Rightarrow> ('s, 'b) prog) \<Rightarrow> ('s, 'b) prog" where
  "bindM m f s =
     (case m s of
        (Returned x, s') \<Rightarrow> f x s'
      | (Threw e, s') \<Rightarrow> (Threw e, s')
      | (Pending, s') \<Rightarrow> (Pending, s'))"

definition thenM :: "('s, 'a) prog \<Rightarrow> ('s, 'b) prog \<Rightarrow> ('s, 'b) prog" where
  "thenM m n = bindM m (\<lambda>_. n)"

text \<open>\<^verbatim>\<open>try { m } catch (error) { h(error) }\<close>\<close>

definition tryCatch :: "('s, 'a) prog \<Rightarrow> (thrown \<Rightarrow> ('s, 'a) prog) \<Rightarrow> ('s, 'a) prog" where
  "tryCatch m h s =
     (case m s of
        (Returned x, s') \<Rightarrow> (Returned x, s')
      | (Threw e, s') \<Rightarrow> h e s'
      | (Pending, s') \<Rightarrow> (Pending, s'))"

text \<open>
  A promise that is raced against a timer: it resolves after some milliseconds, rejects
  after some milliseconds, or never settles. Times are rational numbers; the rounding of
  timers to whole milliseconds is not modelled.
\<close>

datatype 'a settle = Resolves rat 'a | Rejects rat thrown | Never

text \<open>
  \<^verbatim>\<open>Promise.race([p, new Promise((_, reject) => setTimeout(() => reject(te), ms))])\<close>:
  the outcome and the time it takes. The promise is started before the timer, so it wins
  when both are due at the same instant.
\<close>

fun race :: "rat \<Rightarrow> thrown \<Rightarrow> 'a settle \<Rightarrow> 'a outcome \<times> rat" where
  "race ms te (Resolves d v) = (if d \<le> ms then (Returned v, d) else (Threw te, ms))"
| "race ms te (Rejects d e) = (if d \<le> ms then (Threw e, d) else (Threw te, ms))"
| "race ms te Never = (Threw te, ms)"

section \<open>Strings\<close>

fun startsWith :: "string \<Rightarrow> string \<Rightarrow> bool" where
  "startsWith s [] = True"
| "startsWith [] (c # cs) = False"
| "startsWith (d # ds) (c # cs) = (d = c \<and> startsWith ds cs)"

text \<open>\<^verbatim>\<open>s.includes(t)\<close>: \<open>t\<close> occurs in \<open>s\<close> as a contiguous run.\<close>

fun strIncludes :: "string \<Rightarrow> string \<Rightarrow> bool" where
  "strIncludes [] t = (t = [])"
| "strIncludes (c # cs) t = (startsWith (c # cs) t \<or> strIncludes cs t)"

section \<open>The interaction engine\<close>

text \<open>
  Modelled from the spec: the types \<^verbatim>\<open>ActionConfig\<close> and \<^verbatim>\<open>TimeoutConfig\<close>, whose
  declarations are not among the sources. An action is
  \<^verbatim>\<open>{type, duration?, selector?, key?, repeat?}\<close> with \<^verbatim>\<open>type\<close> one of wait, click,
  keypress and screenshot (any other value reaches the \<^verbatim>\<open>default\<close> branch); the timeouts
  are \<^verbatim>\<open>{load, action, total}\<close> in seconds. Numbers are rational; the field \<^verbatim>\<open>type\<close> is
  named \<open>atype\<close>.
\<close>

datatype action_type = TWait | TClick | TKeypress | TScreenshot | TOther string

record action_config =
  atype :: action_type
  duration :: "rat option"
  selector :: "string option"
  key :: "string option"
  repeat :: "rat option"

record timeout_config =
  load :: rat
  action :: rat
  total :: rat

text \<open>
  The session the engine drives. Every call made on it is recorded; what a call does
  is given by a behaviour, which may depend on the clock and on the calls made so far:
  the call resolves after some milliseconds, rejects after some milliseconds, or never
  settles. Times are rational numbers of milliseconds and seconds.
\<close>

datatype call = SessWait rat | SessClick string | SessKeypress string

record world =
  now :: rat
  calls :: "call list"
  warnings :: "(action_type \<times> thrown) list"

type_synonym session = "call \<Rightarrow> world \<Rightarrow> unit settle"

text \<open>\<^verbatim>\<open>await this.session.op(...)\<close>\<close>

definition awaitCall :: "session \<Rightarrow> call \<Rightarrow> (world, unit) prog" where
  "awaitCall sess c w =
     (let w1 = w\<lparr>calls := calls w @ [c]\<rparr> in
      case sess c w of
        Resolves d u \<Rightarrow> (Returned (), w1\<lparr>now := now w + d\<rparr>)
      | Rejects d e \<Rightarrow> (Threw e, w1\<lparr>now := now w + d\<rparr>)
      | Never \<Rightarrow> (Pending, w1))"

text \<open>
  \<^verbatim>\<open>await Promise.race([this.session.op(...), this.timeoutPromise(ms)])\<close>, where
  \<^verbatim>\<open>timeoutPromise\<close> rejects with \<^verbatim>\<open>Error('Action timeout')\<close> after \<open>ms\<close> milliseconds.
\<close>

definition raceCall :: "session \<Rightarrow> rat \<Rightarrow> call \<Rightarrow> (world, unit) prog" where
  "raceCall sess ms c w =
     (case race ms (Error ''Action timeout'') (sess c w) of
        (r, t) \<Rightarrow> (r, w\<lparr>calls := calls w @ [c], now := now w + t\<rparr>))"

text \<open>\<^verbatim>\<open>!action.selector\<close>, \<^verbatim>\<open>!action.key\<close>: absent and empty strings are falsy.\<close>

fun truthyString :: "string option \<Rightarrow> string option" where
  "truthyString None = None"
| "truthyString (Some s) = (if s = [] then None else Some s)"

text \<open>\<^verbatim>\<open>action.duration || 1\<close>, \<^verbatim>\<open>action.repeat || 1\<close>: absent and zero are falsy.\<close>

fun numberOr :: "rat option \<Rightarrow> rat \<Rightarrow> rat" where
  "numberOr None d = d"
| "numberOr (Some x) d = (if x = 0 then d else x)"

text \<open>\<^verbatim>\<open>for (let i = 0; i < repeat; i++)\<close> runs once for every natural number below \<open>repeat\<close>.\<close>

definition iterations :: "rat \<Rightarrow> nat" where
  "iterations r = nat \<lceil>r\<rceil>"

fun keypressLoop :: "session \<Rightarrow> rat \<Rightarrow> string \<Rightarrow> nat \<Rightarrow> (world, unit) prog" where
  "keypressLoop sess ms k 0 = returnM ()"
| "keypressLoop sess ms k (Suc n) =
     thenM (raceCall sess ms (SessKeypress k)) (keypressLoop sess ms k n)"

text \<open>
  The \<^verbatim>\<open>try\<close> block of \<^verbatim>\<open>executeAction\<close>: the \<^verbatim>\<open>switch\<close> on the action type, then the
  check that the action did not take too long. \<open>shw\<close> is the rendering of a number
  inside a template string.
\<close>

definition actionSwitch :: "session \<Rightarrow> rat \<Rightarrow> action_config \<Rightarrow> (world, unit) prog" where
  "actionSwitch sess actionTimeout a =
     (case atype a of
        TWait \<Rightarrow> raceCall sess actionTimeout (SessWait (numberOr (duration a) 1 * 1000))
      | TClick \<Rightarrow>
          (case truthyString (selector a) of
             None \<Rightarrow> throwM (Error ''Click action requires a selector'')
           | Some sel \<Rightarrow> raceCall sess actionTimeout (SessClick sel))
      | TKeypress \<Rightarrow>
          (case truthyString (key a) of
             None \<Rightarrow> throwM (Error ''Keypress action requires a key'')
           | Some k \<Rightarrow> keypressLoop sess actionTimeout k (iterations (numberOr (repeat a) 1)))
      | TScreenshot \<Rightarrow> awaitCall sess (SessWait 200)
      | TOther t \<Rightarrow> throwM (Error (''Unknown action type: '' @ t)))"

definition actionBody ::
  "(rat \<Rightarrow> string) \<Rightarrow> session \<Rightarrow> timeout_config \<Rightarrow> action_config \<Rightarrow> rat \<Rightarrow> (world, unit) prog" where
  "actionBody shw sess tc a startTime =
     thenM (actionSwitch sess (action tc * 1000) a)
       (\<lambda>w. if now w - startTime > action tc * 1000
            then throwM (Error (''Action timeout exceeded ('' @ shw (action tc) @ ''s)'')) w
            else returnM () w)"

text \<open>The \<^verbatim>\<open>catch\<close> block: a timeout error is thrown again, any other is logged.\<close>

definition isTimeoutError :: "thrown \<Rightarrow> bool" where
  "isTimeoutError e = (instanceofError e \<and> strIncludes (message e) ''timeout'')"

definition actionCatch :: "action_config \<Rightarrow> thrown \<Rightarrow> (world, unit) prog" where
  "actionCatch a e w =
     (if isTimeoutError e then throwM e w
      else returnM () (w\<lparr>warnings := warnings w @ [(atype a, e)]\<rparr>))"

definition executeAction ::
  "(rat \<Rightarrow> string) \<Rightarrow> session \<Rightarrow> timeout_config \<Rightarrow> action_config \<Rightarrow> (world, unit) prog" where
  "executeAction shw sess tc a w =
     tryCatch (actionBody shw sess tc a (now w)) (actionCatch a) w"

definition totalTimeoutError :: "(rat \<Rightarrow> string) \<Rightarrow> timeout_config \<Rightarrow> thrown" where
  "totalTimeoutError shw tc =
     Error (''Total execution timeout exceeded ('' @ shw (total tc) @ ''s)'')"

text \<open>The \<^verbatim>\<open>for\<close> loop of \<^verbatim>\<open>executeActions\<close>, from a given start time.\<close>

fun actionsLoop ::
  "(rat \<Rightarrow> string) \<Rightarrow> session \<Rightarrow> timeout_config \<Rightarrow> rat \<Rightarrow> action_config list \<Rightarrow> (world, unit) prog" where
  "actionsLoop shw sess tc startTime [] w = (Returned (), w)"
| "actionsLoop shw sess tc startTime (a # rest) w =
     (if now w - startTime > total tc * 1000
      then (Threw (totalTimeoutError shw tc), w)
      else case executeAction shw sess tc a w of
             (Returned u, w') \<Rightarrow> actionsLoop shw sess tc startTime rest w'
           | (Threw e, w') \<Rightarrow> (Threw e, w')
           | (Pending, w') \<Rightarrow> (Pending, w'))"

definition executeActions ::
  "(rat \<Rightarrow> string) \<Rightarrow> session \<Rightarrow> timeout_config \<Rightarrow> action_config list \<Rightarrow> (world, unit) prog" where
  "executeActions shw sess tc actions w = actionsLoop shw sess tc (now w) actions w"

section \<open>Browser sessions\<close>

text \<open>
  A call to the browser backend (the Browserbase SDK, Playwright, the CDP session) that
  is awaited without a timer of the program's own settles with a value or with a thrown
  error. What the backend answers during one invocation of a session method is the
  method's environment; the methods are modelled for every environment. Console output
  is not modelled.
\<close>

datatype 'a reply = Ok 'a | Fail thrown

type_synonym handle = nat

text \<open>
  The fields the two session classes share, with a clock in milliseconds and the list
  of backend calls made so far, named as in the source.
\<close>

record session_state =
  clock :: rat
  trace :: "string list"
  currentUrl :: string
  browser :: "handle option"
  page :: "handle option"
  cdpSession :: "handle option"

record bb_session = session_state +
  sessionId :: string
  connectUrl :: "string option"

record local_session = session_state +
  browserContext :: handle

definition perform :: "string \<Rightarrow> 'a reply \<Rightarrow> ('z session_state_scheme, 'a) prog" where
  "perform name r s =
     (case r of
        Ok v \<Rightarrow> (Returned v, s\<lparr>trace := trace s @ [name]\<rparr>)
      | Fail e \<Rightarrow> (Threw e, s\<lparr>trace := trace s @ [name]\<rparr>))"

text \<open>\<^verbatim>\<open>await this.wait(ms)\<close>, a timer of \<open>ms\<close> milliseconds.\<close>

definition waitMs :: "rat \<Rightarrow> ('z session_state_scheme, unit) prog" where
  "waitMs ms s = (Returned (), s\<lparr>clock := clock s + ms\<rparr>)"

text \<open>\<^verbatim>\<open>await p.catch(() => {})\<close>\<close>

definition swallow :: "('s, unit) prog \<Rightarrow> ('s, unit) prog" where
  "swallow m = tryCatch m (\<lambda>e. returnM ())"

text \<open>A backend call raced against a timer that rejects with \<open>te\<close> after \<open>ms\<close> milliseconds.\<close>

definition performRace ::
  "string \<Rightarrow> rat \<Rightarrow> thrown \<Rightarrow> 'a settle \<Rightarrow> ('z session_state_scheme, 'a) prog" where
  "performRace name ms te p s =
     (case race ms te p of
        (r, t) \<Rightarrow> (r, s\<lparr>trace := trace s @ [name], clock := clock s + t\<rparr>))"

subsection \<open>Connecting to the remote browser\<close>

record session_info =
  si_connectUrl :: "string option"
  si_wsUrl :: "string option"

text \<open>\<^verbatim>\<open>sessionInfo?.connectUrl || sessionInfo?.wsUrl || null\<close>\<close>

definition infoUrl :: "session_info option \<Rightarrow> string option" where
  "infoUrl info =
     (case info of
        None \<Rightarrow> None
      | Some i \<Rightarrow>
          (case truthyString (si_connectUrl i) of
             Some u \<Rightarrow> Some u
           | None \<Rightarrow> truthyString (si_wsUrl i)))"

text \<open>
  The answers \<^verbatim>\<open>ensureCDPConnection\<close> may get: the three ways to learn the connection
  address, the connection itself, the pages of each context of the connected browser,
  a new page and a new CDP session.
\<close>

record cdp_env =
  getDebugConnectionURLs :: "string option reply"
  sessionsGet :: "session_info option reply"
  sessionsRetrieve :: "session_info option reply"
  connectOverCDP :: "handle reply"
  contexts :: "handle list list"
  newPage :: "handle reply"
  newCDPSession :: "handle reply"

definition discoverConnectUrl :: "cdp_env \<Rightarrow> (bb_session, unit) prog" where
  "discoverConnectUrl env =
     thenM
       (tryCatch
          (bindM (perform ''client.getDebugConnectionURLs'' (getDebugConnectionURLs env))
             (\<lambda>wsUrl s. (Returned (), s\<lparr>connectUrl := truthyString wsUrl\<rparr>)))
          (\<lambda>err1. returnM ()))
       (thenM
          (\<lambda>s. if truthyString (connectUrl s) = None
               then tryCatch
                      (bindM (perform ''client.sessions.get'' (sessionsGet env))
                         (\<lambda>info s'. (Returned (), s'\<lparr>connectUrl := infoUrl info\<rparr>)))
                      (\<lambda>err2. returnM ()) s
               else returnM () s)
          (\<lambda>s. if truthyString (connectUrl s) = None
               then tryCatch
                      (bindM (perform ''client.sessions.retrieve'' (sessionsRetrieve env))
                         (\<lambda>info s'. (Returned (), s'\<lparr>connectUrl := infoUrl info\<rparr>)))
                      (\<lambda>err3. returnM ()) s
               else returnM () s))"

definition connectBrowser :: "cdp_env \<Rightarrow> (bb_session, unit) prog" where
  "connectBrowser env =
     bindM (perform ''chromium.connectOverCDP'' (connectOverCDP env))
       (\<lambda>b s. let s1 = s\<lparr>browser := Some b\<rparr> in
          case contexts env of
            [] \<Rightarrow> throwM (Error ''No browser contexts available after CDP connection'') s1
          | pages # others \<Rightarrow>
              bindM (case pages of
                       p # ps \<Rightarrow> returnM p
                     | [] \<Rightarrow> perform ''defaultContext.newPage'' (newPage env))
                (\<lambda>p s2.
                   bindM (perform ''defaultContext.newCDPSession'' (newCDPSession env))
                     (\<lambda>c s3. (Returned (), s3\<lparr>cdpSession := Some c\<rparr>))
                     (s2\<lparr>page := Some p\<rparr>))
                s1)"

definition ensureCDPConnection :: "cdp_env \<Rightarrow> (bb_session, unit) prog" where
  "ensureCDPConnection env s =
     (if page s \<noteq> None \<and> cdpSession s \<noteq> None then returnM () s
      else tryCatch
             (thenM
                (\<lambda>s1. if truthyString (connectUrl s1) = None then discoverConnectUrl env s1
                      else returnM () s1)
                (\<lambda>s2. if truthyString (connectUrl s2) = None
                      then throwM (Error ''Could not get Browserbase CDP connection URL. Make sure the session is active.'') s2
                      else connectBrowser env s2))
             (\<lambda>error. throwM (Error (''CDP connection failed: '' @ errorText error
                  @ ''. Please check your Browserbase API key and session status.'')))
             s)"

subsection \<open>navigate\<close>

record bb_navigate_env =
  nav_cdp :: cdp_env
  gotoDomContentLoaded :: "unit reply"
  gotoCommit :: "unit reply"
  gotoNoWait :: "unit reply"
  loadURL :: "unit reply"

text \<open>\<^verbatim>\<open>BrowserbaseSession.navigate\<close>: three tiers of \<^verbatim>\<open>page.goto\<close>, each more lenient.\<close>

definition bb_navigate :: "bb_navigate_env \<Rightarrow> string \<Rightarrow> (bb_session, unit) prog" where
  "bb_navigate env url s =
     tryCatch
       (thenM (ensureCDPConnection (nav_cdp env))
          (\<lambda>s1. if page s1 \<noteq> None
                then tryCatch
                       (thenM (perform ''page.goto domcontentloaded 45000'' (gotoDomContentLoaded env))
                          (waitMs 2000))
                       (\<lambda>timeoutError.
                          tryCatch
                            (thenM (perform ''page.goto commit 60000'' (gotoCommit env))
                               (waitMs 3000))
                            (\<lambda>commitError.
                               thenM (swallow (perform ''page.goto 10000'' (gotoNoWait env)))
                                 (waitMs 3000)))
                       s1
                else thenM (perform ''client.loadURL'' (loadURL env)) (waitMs 3000) s1))
       (\<lambda>error. waitMs 3000)
       (s\<lparr>currentUrl := url\<rparr>)"

text \<open>\<^verbatim>\<open>LocalPlaywrightSession.navigate\<close>\<close>

definition local_navigate :: "unit reply \<Rightarrow> string \<Rightarrow> (local_session, unit) prog" where
  "local_navigate goto url s =
     tryCatch
       (thenM (perform ''page.goto domcontentloaded 45000'' goto) (waitMs 2000))
       (\<lambda>error. waitMs 3000)
       (s\<lparr>currentUrl := url\<rparr>)"

subsection \<open>close\<close>

record close_env =
  detach :: "unit reply"
  contextClose :: "unit reply"
  browserClose :: "unit reply"
  completeSession :: "unit reply"

text \<open>\<^verbatim>\<open>BrowserbaseSession.close\<close>\<close>

definition bb_close :: "close_env \<Rightarrow> (bb_session, unit) prog" where
  "bb_close env =
     thenM
       (tryCatch
          (thenM
             (\<lambda>s. if cdpSession s \<noteq> None
                  then thenM (perform ''cdpSession.detach'' (detach env))
                         (\<lambda>s'. (Returned (), s'\<lparr>cdpSession := None\<rparr>)) s
                  else returnM () s)
             (thenM
                (\<lambda>s. if browser s \<noteq> None
                     then thenM (perform ''browser.close'' (browserClose env))
                            (\<lambda>s'. (Returned (), s'\<lparr>browser := None\<rparr>)) s
                     else returnM () s)
                (\<lambda>s. (Returned (), s\<lparr>page := None\<rparr>))))
          (\<lambda>error. returnM ()))
       (perform ''client.completeSession'' (completeSession env))"

text \<open>\<^verbatim>\<open>LocalPlaywrightSession.close\<close>\<close>

definition local_close :: "close_env \<Rightarrow> (local_session, unit) prog" where
  "local_close env =
     tryCatch
       (thenM
          (\<lambda>s. if cdpSession s \<noteq> None
               then swallow (perform ''cdpSession.detach'' (detach env)) s
               else returnM () s)
          (thenM (swallow (perform ''context.close'' (contextClose env)))
             (swallow (perform ''browser.close'' (browserClose env)))))
       (\<lambda>error. returnM ())"

text \<open>The outcome of awaiting a backend call.\<close>

fun replyOutcome :: "'a reply \<Rightarrow> 'a outcome" where
  "replyOutcome (Ok v) = Returned v"
| "replyOutcome (Fail e) = Threw e"

subsection \<open>screenshot\<close>

text \<open>
  What \<^verbatim>\<open>a.effect?.getTiming()?.duration\<close> gives for an animation of the page: a number
  of milliseconds, possibly infinite, or the string \<^verbatim>\<open>'auto'\<close>; nothing when the animation
  has no effect.
\<close>

datatype timing_duration = Millis rat | Infinite | Auto

type_synonym animation = "timing_duration option"

text \<open>The numbers a page script computes with: the finite ones as rationals, infinity, NaN.\<close>

datatype jsnumber = Finite rat | PlusInfinity | NaN

text \<open>
  \<^verbatim>\<open>(timing?.duration || 0) * 1000\<close>: a missing duration and 0 give 0, and
  \<^verbatim>\<open>'auto' * 1000\<close> is NaN.
\<close>

fun scaledDuration :: "animation \<Rightarrow> jsnumber" where
  "scaledDuration None = Finite 0"
| "scaledDuration (Some (Millis d)) = Finite (d * 1000)"
| "scaledDuration (Some Infinite) = PlusInfinity"
| "scaledDuration (Some Auto) = NaN"

text \<open>\<^verbatim>\<open>Math.max\<close> of two numbers; it is NaN as soon as one of them is.\<close>

fun mathMax :: "jsnumber \<Rightarrow> jsnumber \<Rightarrow> jsnumber" where
  "mathMax (Finite a) (Finite b) = Finite (max a b)"
| "mathMax (Finite a) PlusInfinity = PlusInfinity"
| "mathMax (Finite a) NaN = NaN"
| "mathMax PlusInfinity (Finite b) = PlusInfinity"
| "mathMax PlusInfinity PlusInfinity = PlusInfinity"
| "mathMax PlusInfinity NaN = NaN"
| "mathMax NaN y = NaN"

text \<open>
  The delay of the timer the local script sets:
  \<^verbatim>\<open>Math.min(maxDuration + 100, 500)\<close> with animations, 200 without. The page's
  \<^verbatim>\<open>setTimeout\<close> takes a delay that is NaN or negative as 0.
\<close>

definition localSettleDelay :: "animation list \<Rightarrow> rat" where
  "localSettleDelay anims =
     (case map scaledDuration anims of
        [] \<Rightarrow> 200
      | d # ds \<Rightarrow>
          (case fold mathMax ds d of
             Finite maxDuration \<Rightarrow> max 0 (min (maxDuration + 100) 500)
           | PlusInfinity \<Rightarrow> 500
           | NaN \<Rightarrow> 0))"

record capture_result =
  data :: "string option"

text \<open>
  The remote \<^verbatim>\<open>screenshot\<close> gives \<^verbatim>\<open>page.evaluate\<close> a script, as a string, that is meant
  to unhide tiles, force a reflow and wait \<^verbatim>\<open>Math.max(maxDuration + 100, 300)\<close> for the
  animations of the page. The string contains the TypeScript casts
  \<^verbatim>\<open>(el as HTMLElement)\<close>, which are not JavaScript: the page cannot parse it, nothing of
  it runs, and the evaluation throws whatever the page holds.

  What the backend answers during a remote \<^verbatim>\<open>screenshot\<close>: the animations of the page
  (which the method never gets to read), the error the evaluation of the script throws,
  and the capture, which returns a result object (or none) or throws.
\<close>

record bb_screenshot_env =
  shot_cdp :: cdp_env
  pageAnimations :: "animation list"
  repaintThrown :: thrown
  capture :: "capture_result option reply"

text \<open>\<^verbatim>\<open>BrowserbaseSession.screenshot\<close>. \<open>fromBase64\<close> is \<^verbatim>\<open>Buffer.from(data, 'base64')\<close>.\<close>

definition bb_screenshot :: "(string \<Rightarrow> 'b) \<Rightarrow> bb_screenshot_env \<Rightarrow> (bb_session, 'b) prog" where
  "bb_screenshot fromBase64 env =
     tryCatch
       (thenM (ensureCDPConnection (shot_cdp env))
          (\<lambda>s. if cdpSession s = None then throwM (Error ''CDP session not available'') s
               else thenM
                      (\<lambda>s1. if page s1 \<noteq> None
                            then tryCatch
                                   (perform ''page.evaluate'' (Fail (repaintThrown env)))
                                   (\<lambda>e. waitMs 300) s1
                            else waitMs 300 s1)
                      (bindM (perform ''cdpSession.send Page.captureScreenshot'' (capture env))
                         (\<lambda>result.
                            case result of
                              None \<Rightarrow> throwM (Error ''CDP screenshot returned no data'')
                            | Some r \<Rightarrow>
                                (case truthyString (data r) of
                                   None \<Rightarrow> throwM (Error ''CDP screenshot returned no data'')
                                 | Some d \<Rightarrow> returnM (fromBase64 d))))
                      s))
       (\<lambda>error. throwM (Error (''Screenshot failed: '' @ errorText error)))"

text \<open>
  What the backend answers during a local \<^verbatim>\<open>screenshot\<close>. Both calls are raced against
  timers, so each comes with the time it takes: the page script starts after some
  milliseconds on the animations of the page (and then resolves after its own timer),
  or the evaluation rejects, or never settles; likewise the capture.
\<close>

record 'b local_screenshot_env =
  l_repaint :: "animation list settle"
  l_capture :: "'b settle"

fun repaintPromise :: "animation list settle \<Rightarrow> unit settle" where
  "repaintPromise (Resolves d anims) = Resolves (d + localSettleDelay anims) ()"
| "repaintPromise (Rejects d e) = Rejects d e"
| "repaintPromise Never = Never"

text \<open>\<^verbatim>\<open>LocalPlaywrightSession.screenshot\<close>\<close>

definition local_screenshot :: "'b local_screenshot_env \<Rightarrow> (local_session, 'b) prog" where
  "local_screenshot env =
     tryCatch
       (thenM
          (tryCatch
             (performRace ''page.evaluate'' 1000 (Error ''Repaint timeout'')
                (repaintPromise (l_repaint env)))
             (\<lambda>e. waitMs 100))
          (performRace ''page.screenshot'' 10000 (Error ''Screenshot timeout after 10s'')
             (l_capture env)))
       (\<lambda>error. throwM (Error (''Screenshot failed: '' @ errorText error)))"

subsection \<open>clickByText\<close>

text \<open>
  A string is a list of characters with the code points 0 to 255 (Latin-1). In this
  range \<^verbatim>\<open>\s\<close> matches tab, line feed, vertical tab, form feed, carriage return,
  space and no-break space, and \<^verbatim>\<open>trim\<close> removes the same characters.
\<close>

definition isSpace :: "char \<Rightarrow> bool" where
  "isSpace c = (c \<in> set [CHR '' '', CHR 0x09, CHR 0x0A, CHR 0x0B, CHR 0x0C, CHR 0x0D, CHR 0xA0])"

text \<open>\<^verbatim>\<open>s.replace(/\s+/g, ' ')\<close>; the flag tells that the run of whitespace has begun.\<close>

fun collapseFrom :: "bool \<Rightarrow> string \<Rightarrow> string" where
  "collapseFrom inRun [] = []"
| "collapseFrom inRun (c # cs) =
     (if isSpace c then (if inRun then collapseFrom True cs else CHR '' '' # collapseFrom True cs)
      else c # collapseFrom False cs)"

definition replaceWhitespace :: "string \<Rightarrow> string" where
  "replaceWhitespace s = collapseFrom False s"

definition trim :: "string \<Rightarrow> string" where
  "trim s = rev (dropWhile isSpace (rev (dropWhile isSpace s)))"

text \<open>
  \<^verbatim>\<open>toLowerCase\<close> on one character: the upper-case letters of the range are A to Z
  (65 to 90) and the accented capitals 192 to 222 without the multiplication sign 215;
  the lower-case letter of each is 32 further. No other character of the range changes.
\<close>

definition toLowerChar :: "char \<Rightarrow> char" where
  "toLowerChar c =
     (let n = (of_char c :: nat) in
      if (65 \<le> n \<and> n \<le> 90) \<or> (192 \<le> n \<and> n \<le> 214) \<or> (216 \<le> n \<and> n \<le> 222)
      then char_of (n + 32)
      else c)"

definition toLowerCase :: "string \<Rightarrow> string" where
  "toLowerCase s = map toLowerChar s"

text \<open>
  A \<^verbatim>\<open>button\<close> element as the page function of the remote \<^verbatim>\<open>clickByText\<close> reads it:
  its texts, whether \<^verbatim>\<open>offsetParent\<close> is not null, and whether \<^verbatim>\<open>click()\<close> and
  \<^verbatim>\<open>dispatchEvent\<close> throw on it.
\<close>

record button =
  textContent :: string
  innerText :: string
  offsetParent :: bool
  clickThrows :: bool
  dispatchThrows :: bool

definition normalizeTarget :: "string \<Rightarrow> string" where
  "normalizeTarget targetText = trim (replaceWhitespace (toLowerCase targetText))"

text \<open>\<^verbatim>\<open>(btnElement.textContent || btnElement.innerText || '')\<close>, normalised.\<close>

definition buttonText :: "button \<Rightarrow> string" where
  "buttonText b =
     toLowerCase (trim (replaceWhitespace
       (if textContent b \<noteq> [] then textContent b
        else if innerText b \<noteq> [] then innerText b else [])))"

text \<open>The loop of the page function over the buttons of the document.\<close>

fun scanButtons :: "string \<Rightarrow> button list \<Rightarrow> bool" where
  "scanButtons normalizedTarget [] = False"
| "scanButtons normalizedTarget (b # bs) =
     (if offsetParent b \<and> strIncludes (buttonText b) normalizedTarget
      then (if \<not> clickThrows b then True
            else if \<not> dispatchThrows b then True
            else scanButtons normalizedTarget bs)
      else scanButtons normalizedTarget bs)"

definition clickScript :: "string \<Rightarrow> button list \<Rightarrow> bool" where
  "clickScript targetText buttons = scanButtons (normalizeTarget targetText) buttons"

text \<open>
  The answers of Playwright to the four locator strategies, and the buttons of the
  document the page function runs on (or the error its evaluation throws).
\<close>

record bb_click_env =
  click_cdp :: cdp_env
  regExp :: "unit reply"
  roleWaitFor :: "unit reply"
  roleClick :: "unit reply"
  textWaitFor :: "unit reply"
  textClick :: "unit reply"
  filterWaitFor :: "unit reply"
  filterCount :: "nat reply"
  filterClick :: "unit reply"
  xpathWaitFor :: "unit reply"
  xpathClick :: "unit reply"
  pageButtons :: "button list reply"

text \<open>
  \<^verbatim>\<open>try { m; await this.wait(500); return true; } catch { }\<close>: the result tells whether
  the method has returned \<^verbatim>\<open>true\<close>; if not, the next strategy runs.
\<close>

definition clickStrategy :: "('z session_state_scheme, unit) prog \<Rightarrow> ('z session_state_scheme, bool) prog" where
  "clickStrategy m = tryCatch (thenM m (thenM (waitMs 500) (returnM True))) (\<lambda>e. returnM False)"

definition orElse :: "('s, bool) prog \<Rightarrow> ('s, bool) prog \<Rightarrow> ('s, bool) prog" where
  "orElse m n = bindM m (\<lambda>returned. if returned then returnM True else n)"

text \<open>
  The four locator strategies of the remote \<^verbatim>\<open>clickByText\<close> in their order, then the
  page function that scans the buttons of the document.
\<close>

definition clickStrategies :: "bb_click_env \<Rightarrow> string \<Rightarrow> bool \<Rightarrow> (bb_session, bool) prog" where
  "clickStrategies env text exact =
     orElse
       (clickStrategy
          (thenM (perform ''new RegExp'' (regExp env))
             (thenM (perform ''getByRole.waitFor'' (roleWaitFor env))
                (perform ''getByRole.click'' (roleClick env)))))
    (orElse
       (clickStrategy
          (thenM (perform (if exact then ''getByText exact waitFor'' else ''getByText.waitFor'')
                    (textWaitFor env))
             (perform ''getByText.first.click'' (textClick env))))
    (orElse
       (tryCatch
          (thenM (perform ''locator button filter waitFor'' (filterWaitFor env))
             (bindM (perform ''locator.count'' (filterCount env))
                (\<lambda>count. if count > 0
                   then thenM (perform ''locator.first.click'' (filterClick env))
                          (thenM (waitMs 500) (returnM True))
                   else returnM False)))
          (\<lambda>locatorError. returnM False))
    (orElse
       (clickStrategy
          (thenM (perform ''locator xpath waitFor'' (xpathWaitFor env))
             (perform ''locator.first.click'' (xpathClick env))))
       (bindM (perform ''page.evaluate'' (pageButtons env))
          (\<lambda>buttons. if clickScript text buttons
             then thenM (waitMs 500) (returnM True)
             else returnM False)))))"

text \<open>\<^verbatim>\<open>BrowserbaseSession.clickByText\<close>\<close>

definition bb_clickByText :: "bb_click_env \<Rightarrow> string \<Rightarrow> bool \<Rightarrow> (bb_session, bool) prog" where
  "bb_clickByText env text exact =
     tryCatch
       (thenM (ensureCDPConnection (click_cdp env))
          (\<lambda>s. if page s = None then returnM False s
               else clickStrategies env text exact s))
       (\<lambda>error. returnM False)"

text \<open>
  An element of the page as the local \<^verbatim>\<open>clickByText\<close> meets it: the text that the
  XPath function \<^verbatim>\<open>text()\<close> gives for it, and the answers to \<^verbatim>\<open>isVisible\<close> and \<^verbatim>\<open>click\<close>.
\<close>

record element =
  elementText :: string
  isVisible :: "bool reply"
  elementClick :: "unit reply"

text \<open>
  The answers of Playwright to the local \<^verbatim>\<open>clickByText\<close>: the focus, the visibility of
  and the click on what \<^verbatim>\<open>getByText\<close> locates, the elements of the page that the XPath
  locator goes through, and the error the locator throws on an expression that does not
  parse.
\<close>

record local_click_env =
  focusBody :: "unit reply"
  getByTextVisible :: "bool reply"
  getByTextClick :: "unit reply"
  locatorAll :: "element list reply"
  malformedXPath :: thrown

text \<open>
  \<^verbatim>\<open>JSON.stringify(s)\<close> without its two enclosing quotes: the double quote and the
  backslash get a backslash in front, the control characters below 32 become
  \<^verbatim>\<open>\b\<close>, \<^verbatim>\<open>\t\<close>, \<^verbatim>\<open>\n\<close>, \<^verbatim>\<open>\f\<close>, \<^verbatim>\<open>\r\<close> or \<^verbatim>\<open>\u00XX\<close>, every other character
  stays. Character 34 is the double quote, 92 the backslash.
\<close>

definition hexDigit :: "nat \<Rightarrow> char" where
  "hexDigit n = ''0123456789abcdef'' ! n"

definition jsonEscapeChar :: "char \<Rightarrow> string" where
  "jsonEscapeChar c =
     (if c = CHR 0x22 then [CHR 0x5C, CHR 0x22]
      else if c = CHR 0x5C then [CHR 0x5C, CHR 0x5C]
      else if c = CHR 0x08 then [CHR 0x5C, CHR ''b'']
      else if c = CHR 0x09 then [CHR 0x5C, CHR ''t'']
      else if c = CHR 0x0A then [CHR 0x5C, CHR ''n'']
      else if c = CHR 0x0C then [CHR 0x5C, CHR ''f'']
      else if c = CHR 0x0D then [CHR 0x5C, CHR ''r'']
      else if (of_char c :: nat) < 32
        then [CHR 0x5C, CHR ''u'', CHR ''0'', CHR ''0'',
              hexDigit ((of_char c :: nat) div 16), hexDigit ((of_char c :: nat) mod 16)]
      else [c])"

definition jsonEscape :: "string \<Rightarrow> string" where
  "jsonEscape s = concat (map jsonEscapeChar s)"

text \<open>
  \<^verbatim>\<open>//*[contains(text(), "...")]\<close>: the elements whose text contains the string literal.
  An XPath string literal has no escapes and ends at the next double quote, so the
  literal is the escaped text as it stands, backslashes included.
\<close>

definition xpathContains :: "string \<Rightarrow> element list \<Rightarrow> element list" where
  "xpathContains literal els = filter (\<lambda>el. strIncludes (elementText el) literal) els"

fun clickFirstVisible :: "element list \<Rightarrow> ('z session_state_scheme, bool) prog" where
  "clickFirstVisible [] = returnM False"
| "clickFirstVisible (el # els) =
     bindM (tryCatch (perform ''el.isVisible'' (isVisible el)) (\<lambda>e. returnM False))
       (\<lambda>visible. if visible
          then thenM (perform ''el.click'' (elementClick el)) (thenM (waitMs 200) (returnM True))
          else clickFirstVisible els)"

text \<open>
  The XPath fallback of the local \<^verbatim>\<open>clickByText\<close>. The expression holds
  \<^verbatim>\<open>JSON.stringify(normalizedText)\<close>; a double quote of the text is still a double quote
  there (after a backslash), ends the literal early and leaves an expression that does
  not parse, on which the locator throws.
\<close>

definition xpathFallback :: "local_click_env \<Rightarrow> string \<Rightarrow> (local_session, bool) prog" where
  "xpathFallback env normalizedText =
     (if CHR 0x22 \<in> set normalizedText
      then perform ''locator xpath all'' (Fail (malformedXPath env))
      else bindM (perform ''locator xpath all'' (locatorAll env))
             (\<lambda>els. clickFirstVisible (xpathContains (jsonEscape normalizedText) els)))"

text \<open>\<^verbatim>\<open>LocalPlaywrightSession.clickByText\<close>\<close>

definition local_clickByText :: "local_click_env \<Rightarrow> string \<Rightarrow> bool \<Rightarrow> (local_session, bool) prog" where
  "local_clickByText env text exact =
     tryCatch
       (thenM (perform ''page.focus body'' (focusBody env))
          (bindM (tryCatch (perform (if exact then ''getByText exact isVisible'' else ''getByText.isVisible'')
                              (getByTextVisible env))
                    (\<lambda>e. returnM False))
             (\<lambda>visible. if visible
                then thenM (perform ''getByText.click'' (getByTextClick env))
                       (thenM (waitMs 200) (returnM True))
                else xpathFallback env (trim (replaceWhitespace text)))))
       (\<lambda>error. returnM False)"

subsection \<open>switchToIframe\<close>

text \<open>
  The bounding box of an element (its position is not used), and an \<^verbatim>\<open>iframe\<close> element
  as the method meets it: the answers to \<^verbatim>\<open>boundingBox()\<close> and \<^verbatim>\<open>contentFrame()\<close>.
  Lengths are rational numbers.
\<close>

record box =
  width :: rat
  height :: rat

record iframe =
  boundingBox :: "box option reply"
  contentFrame :: "handle option reply"

record iframe_env =
  querySelector :: "iframe option reply"
  queryIframes :: "iframe list reply"

text \<open>
  \<^verbatim>\<open>const frame = await iframe.contentFrame(); if (frame) { this.page = frame; return true; }\<close>.
  The result tells whether the method has returned \<^verbatim>\<open>true\<close>.
\<close>

definition enterFrame :: "iframe \<Rightarrow> ('z session_state_scheme, bool) prog" where
  "enterFrame i =
     bindM (perform ''iframe.contentFrame'' (contentFrame i))
       (\<lambda>frame s. case frame of
                     Some f \<Rightarrow> (Returned True, s\<lparr>page := Some f\<rparr>)
                   | None \<Rightarrow> (Returned False, s))"

text \<open>The loop over the iframes, with its variables \<^verbatim>\<open>largestIframe\<close> and \<^verbatim>\<open>maxArea\<close>.\<close>

fun largestIframeLoop ::
  "iframe list \<Rightarrow> iframe option \<Rightarrow> rat \<Rightarrow> ('z session_state_scheme, iframe option) prog" where
  "largestIframeLoop [] largestIframe maxArea = returnM largestIframe"
| "largestIframeLoop (i # rest) largestIframe maxArea =
     bindM (perform ''iframe.boundingBox'' (boundingBox i))
       (\<lambda>found. case found of
                   None \<Rightarrow> largestIframeLoop rest largestIframe maxArea
                 | Some b \<Rightarrow>
                     if width b * height b > maxArea \<and> width b * height b > 400 * 400
                     then largestIframeLoop rest (Some i) (width b * height b)
                     else largestIframeLoop rest largestIframe maxArea)"

text \<open>
  The statements of \<^verbatim>\<open>switchToIframe\<close> inside its \<^verbatim>\<open>try\<close> block, from the test of the
  selector on; they are the same in the two classes.
\<close>

definition switchToFrame :: "iframe_env \<Rightarrow> string option \<Rightarrow> ('z session_state_scheme, bool) prog" where
  "switchToFrame env wanted =
     orElse
       (case truthyString wanted of
          None \<Rightarrow> returnM False
        | Some sel \<Rightarrow>
            bindM (perform ''page.$'' (querySelector env))
              (\<lambda>found. case found of None \<Rightarrow> returnM False | Some i \<Rightarrow> enterFrame i))
       (bindM (perform ''page.$$ iframe'' (queryIframes env))
          (\<lambda>iframes.
             if length iframes = 0 then returnM False
             else bindM (largestIframeLoop iframes None 0)
                    (\<lambda>largestIframe. case largestIframe of
                                       None \<Rightarrow> returnM False
                                     | Some i \<Rightarrow> enterFrame i)))"

text \<open>\<^verbatim>\<open>BrowserbaseSession.switchToIframe\<close>\<close>

definition bb_switchToIframe ::
  "cdp_env \<Rightarrow> iframe_env \<Rightarrow> string option \<Rightarrow> (bb_session, bool) prog" where
  "bb_switchToIframe cenv env wanted =
     tryCatch
       (thenM (ensureCDPConnection cenv)
          (\<lambda>s. if page s = None then returnM False s else switchToFrame env wanted s))
       (\<lambda>error. returnM False)"

text \<open>\<^verbatim>\<open>LocalPlaywrightSession.switchToIframe\<close>\<close>

definition local_switchToIframe :: "iframe_env \<Rightarrow> string option \<Rightarrow> (local_session, bool) prog" where
  "local_switchToIframe env wanted =
     tryCatch (switchToFrame env wanted) (\<lambda>error. returnM False)"

text \<open>The area the loop computes for an iframe, when it has a bounding box.\<close>

definition iframeArea :: "iframe \<Rightarrow> rat option" where
  "iframeArea i =
     (case boundingBox i of
        Ok (Some b) \<Rightarrow> Some (width b * height b)
      | Ok None \<Rightarrow> None
      | Fail e \<Rightarrow> None)"

text \<open>The variables of the loop at its end, when every \<^verbatim>\<open>boundingBox()\<close> call answers.\<close>

fun largestOf :: "iframe list \<Rightarrow> iframe option \<Rightarrow> rat \<Rightarrow> iframe option \<times> rat" where
  "largestOf [] largestIframe maxArea = (largestIframe, maxArea)"
| "largestOf (i # rest) largestIframe maxArea =
     (case iframeArea i of
        None \<Rightarrow> largestOf rest largestIframe maxArea
      | Some area \<Rightarrow>
          if area > maxArea \<and> area > 400 * 400 then largestOf rest (Some i) area
          else largestOf rest largestIframe maxArea)"

section \<open>Example inputs\<close>

definition exampleRender :: "rat \<Rightarrow> string" where
  "exampleRender r = ''20''"

definition exampleTimeouts :: timeout_config where
  "exampleTimeouts = \<lparr>load = 30, action = 20, total = 300\<rparr>"

definition startWorld :: world where
  "startWorld = \<lparr>now = 0, calls = [], warnings = []\<rparr>"

text \<open>A session whose every call resolves at once.\<close>

definition readySession :: session where
  "readySession c w = Resolves 0 ()"

text \<open>A session that sleeps as asked, presses keys, and finds no element to click.\<close>

definition playMissingSession :: session where
  "playMissingSession c w =
     (case c of
        SessWait ms \<Rightarrow> Resolves ms ()
      | SessClick sel \<Rightarrow> Rejects 5000 (Error ''element not found'')
      | SessKeypress k \<Rightarrow> Resolves 100 ())"

definition waitOne :: action_config where
  "waitOne = \<lparr>atype = TWait, duration = Some 1, selector = None, key = None, repeat = None\<rparr>"

definition waitZero :: action_config where
  "waitZero = \<lparr>atype = TWait, duration = Some 0, selector = None, key = None, repeat = None\<rparr>"

definition clickPlay :: action_config where
  "clickPlay = \<lparr>atype = TClick, duration = None, selector = Some ''#play'', key = None, repeat = None\<rparr>"

definition clickNoSelector :: action_config where
  "clickNoSelector = \<lparr>atype = TClick, duration = None, selector = None, key = None, repeat = None\<rparr>"

definition keypressRight :: action_config where
  "keypressRight = \<lparr>atype = TKeypress, duration = None, selector = None, key = Some ''ArrowRight'', repeat = Some 1\<rparr>"

definition keypressZero :: action_config where
  "keypressZero = \<lparr>atype = TKeypress, duration = None, selector = None, key = Some ''ArrowUp'', repeat = Some 0\<rparr>"

text \<open>A backend that releases everything, and one that refuses to complete a session twice.\<close>

definition closeOk :: close_env where
  "closeOk = \<lparr>detach = Ok (), contextClose = Ok (), browserClose = Ok (), completeSession = Ok ()\<rparr>"

definition closeAgain :: close_env where
  "closeAgain = \<lparr>detach = Ok (), contextClose = Ok (), browserClose = Ok (),
     completeSession = Fail (Error ''Session already completed'')\<rparr>"

definition connectedRemote :: bb_session where
  "connectedRemote = \<lparr>clock = 0, trace = [], currentUrl = ''about:blank'', browser = Some 1,
     page = Some 2, cdpSession = Some 3, sessionId = ''s-1'', connectUrl = Some ''wss://connect''\<rparr>"

definition connectedLocal :: local_session where
  "connectedLocal = \<lparr>clock = 0, trace = [], currentUrl = ''about:blank'', browser = Some 1,
     page = Some 2, cdpSession = Some 3, browserContext = 4\<rparr>"

text \<open>
  A connection environment that is never consulted on a connected session, and
  screenshot environments: a page with two animations of 150 ms and 400 ms, a capture
  without data, a capture that resolves with an empty buffer, a capture that never
  settles.
\<close>

definition noCdp :: cdp_env where
  "noCdp = \<lparr>getDebugConnectionURLs = Ok None, sessionsGet = Ok None, sessionsRetrieve = Ok None,
     connectOverCDP = Fail (Error ''unreachable''), contexts = [],
     newPage = Fail (Error ''unreachable''), newCDPSession = Fail (Error ''unreachable'')\<rparr>"

definition twoAnimations :: "animation list" where
  "twoAnimations = [Some (Millis 150), Some (Millis 400)]"

definition remoteShot :: bb_screenshot_env where
  "remoteShot = \<lparr>shot_cdp = noCdp, pageAnimations = twoAnimations,
     repaintThrown = Error ''SyntaxError: Unexpected identifier'',
     capture = Ok (Some \<lparr>data = Some ''iVBORw0KGgo=''\<rparr>)\<rparr>"

definition localShot :: "nat list local_screenshot_env" where
  "localShot = \<lparr>l_repaint = Resolves 0 twoAnimations, l_capture = Resolves 50 [137, 80, 78, 71]\<rparr>"

definition localShotEmpty :: "nat list local_screenshot_env" where
  "localShotEmpty = \<lparr>l_repaint = Resolves 0 twoAnimations, l_capture = Resolves 50 []\<rparr>"

definition remoteShotNoData :: bb_screenshot_env where
  "remoteShotNoData = \<lparr>shot_cdp = noCdp, pageAnimations = twoAnimations,
     repaintThrown = Error ''SyntaxError: Unexpected identifier'',
     capture = Ok (Some \<lparr>data = None\<rparr>)\<rparr>"

definition localShotStuck :: "nat list local_screenshot_env" where
  "localShotStuck = \<lparr>l_repaint = Resolves 0 twoAnimations, l_capture = Never\<rparr>"

text \<open>The button text of the specification's example: two spaces, Play, two spaces, a line feed.\<close>

definition paddedPlay :: string where
  "paddedPlay = [CHR '' '', CHR '' '', CHR ''P'', CHR ''l'', CHR ''a'', CHR ''y'', CHR '' '', CHR '' '', CHR 0x0A]"

definition playButton :: button where
  "playButton = \<lparr>textContent = paddedPlay, innerText = ''Play'', offsetParent = True,
     clickThrows = False, dispatchThrows = False\<rparr>"

definition quitButton :: button where
  "quitButton = \<lparr>textContent = ''Quit'', innerText = ''Quit'', offsetParent = True,
     clickThrows = False, dispatchThrows = False\<rparr>"

text \<open>A page on which no Playwright locator finds a visible match.\<close>

definition locatorsFail :: "button list \<Rightarrow> bb_click_env" where
  "locatorsFail buttons = \<lparr>click_cdp = noCdp, regExp = Ok (),
     roleWaitFor = Fail (Error ''Timeout 2000ms exceeded''), roleClick = Ok (),
     textWaitFor = Fail (Error ''Timeout 2000ms exceeded''), textClick = Ok (),
     filterWaitFor = Fail (Error ''Timeout 2000ms exceeded''), filterCount = Ok 0, filterClick = Ok (),
     xpathWaitFor = Fail (Error ''Timeout 2000ms exceeded''), xpathClick = Ok (),
     pageButtons = Ok buttons\<rparr>"

definition playElement :: element where
  "playElement = \<lparr>elementText = paddedPlay, isVisible = Ok True, elementClick = Ok ()\<rparr>"

definition quitElement :: element where
  "quitElement = \<lparr>elementText = ''Quit'', isVisible = Ok True, elementClick = Ok ()\<rparr>"

definition localPage :: "element list \<Rightarrow> local_click_env" where
  "localPage els = \<lparr>focusBody = Ok (), getByTextVisible = Ok False, getByTextClick = Ok (),
     locatorAll = Ok els, malformedXPath = Error ''Unexpected token''\<rparr>"

text \<open>
  Texts that match only after normalisation: a wanted text in capitals with stray
  whitespace (space, space, PLAY, space, line feed, now, tab) against a button text
  with other whitespace (Play, space, tab, space, Now, line feed), and the accented
  capitals of \<open>ETE\<close> with acute accents on both E (201, T, 201) against the small letters
  (233, t, 233). A text with double quotes.
\<close>

definition shoutedPlayNow :: string where
  "shoutedPlayNow = [CHR '' '', CHR '' '', CHR ''P'', CHR ''L'', CHR ''A'', CHR ''Y'', CHR '' '',
     CHR 0x0A, CHR ''n'', CHR ''o'', CHR ''w'', CHR 0x09]"

definition playNowButton :: button where
  "playNowButton = \<lparr>textContent = [CHR ''P'', CHR ''l'', CHR ''a'', CHR ''y'', CHR '' '', CHR 0x09,
       CHR '' '', CHR ''N'', CHR ''o'', CHR ''w'', CHR 0x0A],
     innerText = ''Play Now'', offsetParent = True, clickThrows = False, dispatchThrows = False\<rparr>"

definition capitalEte :: string where
  "capitalEte = [CHR 0xC9, CHR ''T'', CHR 0xC9]"

definition eteButton :: button where
  "eteButton = \<lparr>textContent = [CHR 0xE9, CHR ''t'', CHR 0xE9], innerText = [],
     offsetParent = True, clickThrows = False, dispatchThrows = False\<rparr>"

definition quotedGo :: string where
  "quotedGo = [CHR ''s'', CHR ''a'', CHR ''y'', CHR '' '', CHR 0x22, CHR ''g'', CHR ''o'', CHR 0x22]"

definition quotedGoElement :: element where
  "quotedGoElement = \<lparr>elementText = quotedGo, isVisible = Ok True, elementClick = Ok ()\<rparr>"

text \<open>Two iframes, of 100 by 100 and of 800 by 600, and a page that holds them.\<close>

definition smallIframe :: iframe where
  "smallIframe = \<lparr>boundingBox = Ok (Some \<lparr>width = 100, height = 100\<rparr>), contentFrame = Ok (Some 11)\<rparr>"

definition gameIframe :: iframe where
  "gameIframe = \<lparr>boundingBox = Ok (Some \<lparr>width = 800, height = 600\<rparr>), contentFrame = Ok (Some 12)\<rparr>"

definition pageWithIframes :: "iframe list \<Rightarrow> iframe_env" where
  "pageWithIframes iframes = \<lparr>querySelector = Ok None, queryIframes = Ok iframes\<rparr>"

section \<open>Properties of the interaction engine\<close>

lemmas engine_defs =
  executeAction_def actionBody_def actionSwitch_def actionCatch_def isTimeoutError_def
  raceCall_def awaitCall_def tryCatch_def thenM_def bindM_def returnM_def throwM_def
  iterations_def

text \<open>Running a list of actions is running a first part, then the rest from where it ended.\<close>

lemma actionsLoop_append:
  "actionsLoop shw sess tc st (pre @ post) w =
     (case actionsLoop shw sess tc st pre w of
        (Returned u, w') \<Rightarrow> actionsLoop shw sess tc st post w'
      | (Threw e, w') \<Rightarrow> (Threw e, w')
      | (Pending, w') \<Rightarrow> (Pending, w'))"
proof (induction pre arbitrary: w)
  case Nil
  show ?case by simp
next
  case (Cons a pre)
  show ?case
  proof (cases "now w - st > total tc * 1000")
    case True
    then show ?thesis by simp
  next
    case False
    obtain r w1 where step: "executeAction shw sess tc a w = (r, w1)"
      by (cases "executeAction shw sess tc a w")
    show ?thesis
      using False step Cons.IH [of w1] by (cases r) simp_all
  qed
qed

text \<open>
  C1. \<^verbatim>\<open>executeActions\<close> takes the clock reading at entry as its start time and compares the
  elapsed time with \<^verbatim>\<open>timeouts.total * 1000\<close> before every action. Whatever the action
  list, the session and the timeouts: once the actions \<open>pre\<close> have run and left the clock
  more than the total timeout after the start, the next action \<open>a\<close> is not executed; the
  call throws the total-timeout error to its caller in the very state the check found
  (no further session call is made, for \<open>a\<close> or for any action of \<open>post\<close>).
\<close>

theorem executeActions_total_timeout:
  assumes "actionsLoop shw sess tc (now w) pre w = (Returned (), w')"
      and "now w' - now w > total tc * 1000"
  shows "executeActions shw sess tc (pre @ a # post) w = (Threw (totalTimeoutError shw tc), w')"
  using assms by (simp add: executeActions_def actionsLoop_append)

theorem executeActions_total_timeout_witness:
  "executeActions (\<lambda>r. ''1'') (\<lambda>c w. Resolves 2000 ()) \<lparr>load = 30, action = 5, total = 1\<rparr>
     ([\<lparr>atype = TWait, duration = Some 2, selector = None, key = None, repeat = None\<rparr>]
       @ \<lparr>atype = TWait, duration = Some 1, selector = None, key = None, repeat = None\<rparr> # [])
     \<lparr>now = 0, calls = [], warnings = []\<rparr>
   = (Threw (totalTimeoutError (\<lambda>r. ''1'') \<lparr>load = 30, action = 5, total = 1\<rparr>),
      \<lparr>now = 2000, calls = [SessWait 2000], warnings = []\<rparr>)"
  by (rule executeActions_total_timeout) (simp_all add: engine_defs)

text \<open>
  C2. When the \<^verbatim>\<open>try\<close> block of an action throws \<open>e\<close>: if \<open>e\<close> is an \<^verbatim>\<open>Error\<close> whose message
  includes \<^verbatim>\<open>timeout\<close>, it is thrown again and ends the whole sequence there; any other
  thrown value is logged with the action type, the action counts as done, and the loop
  goes on with the remaining actions.
\<close>

theorem executeAction_error_policy:
  assumes "actionBody shw sess tc a (now w) w = (Threw e, w')"
      and "\<not> now w - st > total tc * 1000"
  shows "actionsLoop shw sess tc st (a # rest) w =
          (if instanceofError e \<and> strIncludes (message e) ''timeout'' then (Threw e, w')
           else actionsLoop shw sess tc st rest (w'\<lparr>warnings := warnings w' @ [(atype a, e)]\<rparr>))"
  using assms
  by (simp add: executeAction_def tryCatch_def actionCatch_def isTimeoutError_def
      throwM_def returnM_def)

text \<open>
  The scenario of the specification: wait, a click whose element is not found, a key
  press. The run completes, with one call of each kind and the failure logged.
\<close>

theorem executeAction_error_policy_witness:
  "executeActions exampleRender playMissingSession exampleTimeouts
     [waitOne, clickPlay, keypressRight] startWorld
   = (Returned (),
      \<lparr>now = 6100, calls = [SessWait 1000, SessClick ''#play'', SessKeypress ''ArrowRight''],
       warnings = [(TClick, Error ''element not found'')]\<rparr>)"
proof -
  let ?w1 = "\<lparr>now = 1000, calls = [SessWait 1000], warnings = []\<rparr>"
  have first: "executeActions exampleRender playMissingSession exampleTimeouts
                 [waitOne, clickPlay, keypressRight] startWorld
               = actionsLoop exampleRender playMissingSession exampleTimeouts 0
                   (clickPlay # [keypressRight]) ?w1"
    by (simp add: executeActions_def engine_defs playMissingSession_def exampleTimeouts_def
        startWorld_def waitOne_def clickPlay_def keypressRight_def)
  have body: "actionBody exampleRender playMissingSession exampleTimeouts clickPlay (now ?w1) ?w1
    = (Threw (Error ''element not found''),
       \<lparr>now = 6000, calls = [SessWait 1000, SessClick ''#play''], warnings = []\<rparr>)"
    by (simp add: engine_defs playMissingSession_def exampleTimeouts_def clickPlay_def)
  have chk: "\<not> now ?w1 - 0 > total exampleTimeouts * 1000"
    by (simp add: exampleTimeouts_def)
  show ?thesis
    unfolding first executeAction_error_policy [OF body chk]
    by (simp add: engine_defs playMissingSession_def exampleTimeouts_def clickPlay_def
        keypressRight_def)
qed

text \<open>
  C3, as the code has it. A click action whose selector is absent or empty makes no
  session call: the error \<^verbatim>\<open>Click action requires a selector\<close> is thrown inside the
  \<^verbatim>\<open>try\<close> block, its message does not include \<^verbatim>\<open>timeout\<close>, so the \<^verbatim>\<open>catch\<close> block logs
  it and \<^verbatim>\<open>executeAction\<close> returns normally.
\<close>

theorem click_without_selector_skipped:
  assumes "atype a = TClick" and "truthyString (selector a) = None"
  shows "executeAction shw sess tc a w =
           (Returned (), w\<lparr>warnings := warnings w @ [(TClick, Error ''Click action requires a selector'')]\<rparr>)"
  using assms by (simp add: engine_defs)

theorem click_without_selector_skipped_witness:
  "executeAction exampleRender readySession exampleTimeouts clickNoSelector startWorld =
     (Returned (), startWorld\<lparr>warnings := warnings startWorld @ [(TClick, Error ''Click action requires a selector'')]\<rparr>)"
  by (rule click_without_selector_skipped) (simp_all add: clickNoSelector_def)

text \<open>
  C3, as the specification states it, fails: a sequence that starts with a click without
  selector is not aborted and nothing is thrown to the caller; the next action runs.
\<close>

theorem click_without_selector_counterexample:
  "executeActions exampleRender readySession exampleTimeouts
     [clickNoSelector, keypressRight] startWorld
   = (Returned (),
      \<lparr>now = 0, calls = [SessKeypress ''ArrowRight''],
       warnings = [(TClick, Error ''Click action requires a selector'')]\<rparr>)"
  by (simp add: executeActions_def engine_defs readySession_def exampleTimeouts_def
      startWorld_def clickNoSelector_def keypressRight_def)

text \<open>Two actions with the same type and the same \<^verbatim>\<open>switch\<close> branch run alike.\<close>

lemma executeAction_cong:
  assumes "actionSwitch sess (action tc * 1000) a = actionSwitch sess (action tc * 1000) b"
      and "atype a = atype b"
  shows "executeAction shw sess tc a w = executeAction shw sess tc b w"
proof -
  have "actionCatch a = actionCatch b"
    using assms(2) by (intro ext) (simp add: actionCatch_def)
  then show ?thesis
    using assms(1) by (simp add: executeAction_def actionBody_def)
qed

lemma executeAction_single_call:
  assumes "actionSwitch sess (action tc * 1000) a = raceCall sess (action tc * 1000) c"
  shows "calls (snd (executeAction shw sess tc a w)) = calls w @ [c]"
proof (cases "race (action tc * 1000) (Error ''Action timeout'') (sess c w)")
  case (Pair r t)
  then show ?thesis
    using assms
    by (cases r)
      (simp_all add: executeAction_def actionBody_def actionCatch_def raceCall_def
        tryCatch_def thenM_def bindM_def returnM_def throwM_def)
qed

lemma wait_switch:
  assumes "atype a = TWait"
  shows "actionSwitch sess ms a = raceCall sess ms (SessWait (numberOr (duration a) 1 * 1000))"
  using assms by (simp add: actionSwitch_def)

lemma keypress_once_switch:
  assumes "atype a = TKeypress" and "truthyString (key a) = Some k"
      and "numberOr (repeat a) 1 = 1"
  shows "actionSwitch sess ms a = thenM (raceCall sess ms (SessKeypress k)) (returnM ())"
  using assms by (simp add: actionSwitch_def iterations_def)

lemma thenM_return_unit: "thenM (m :: ('s, unit) prog) (returnM ()) = m"
proof
  fix s
  obtain r s' where "m s = (r, s')" by (cases "m s")
  then show "thenM m (returnM ()) s = m s"
    by (cases r) (simp_all add: thenM_def bindM_def returnM_def)
qed

text \<open>
  C10. A wait action whose duration is absent or 0 runs exactly as one with duration 1:
  the session is asked once to wait 1000 ms. A keypress action (with a key) whose repeat
  is absent or 0 runs exactly as one with repeat 1: the session is asked for one key press.
\<close>

theorem falsy_defaults:
  "(atype a = TWait \<longrightarrow> (duration a = None \<or> duration a = Some 0) \<longrightarrow>
       executeAction shw sess tc a w = executeAction shw sess tc (a\<lparr>duration := Some 1\<rparr>) w
     \<and> calls (snd (executeAction shw sess tc a w)) = calls w @ [SessWait 1000])
 \<and> (atype a = TKeypress \<longrightarrow> truthyString (key a) = Some k \<longrightarrow>
       (repeat a = None \<or> repeat a = Some 0) \<longrightarrow>
       executeAction shw sess tc a w = executeAction shw sess tc (a\<lparr>repeat := Some 1\<rparr>) w
     \<and> calls (snd (executeAction shw sess tc a w)) = calls w @ [SessKeypress k])"
proof (intro conjI impI)
  assume t: "atype a = TWait" and d: "duration a = None \<or> duration a = Some 0"
  from d have one: "numberOr (duration a) 1 = 1" by auto
  show "executeAction shw sess tc a w = executeAction shw sess tc (a\<lparr>duration := Some 1\<rparr>) w"
    by (rule executeAction_cong) (simp_all add: t one wait_switch)
  show "calls (snd (executeAction shw sess tc a w)) = calls w @ [SessWait 1000]"
    by (rule executeAction_single_call) (simp add: t one wait_switch)
next
  assume t: "atype a = TKeypress" and k: "truthyString (key a) = Some k"
    and r: "repeat a = None \<or> repeat a = Some 0"
  from r have one: "numberOr (repeat a) 1 = 1" by auto
  show "executeAction shw sess tc a w = executeAction shw sess tc (a\<lparr>repeat := Some 1\<rparr>) w"
    by (rule executeAction_cong) (simp_all add: t k one keypress_once_switch)
  show "calls (snd (executeAction shw sess tc a w)) = calls w @ [SessKeypress k]"
    by (rule executeAction_single_call) (simp add: t k one keypress_once_switch thenM_return_unit)
qed

theorem falsy_defaults_witness:
  "(atype waitZero = TWait \<and> duration waitZero = Some 0 \<and>
    executeAction exampleRender readySession exampleTimeouts waitZero startWorld
      = executeAction exampleRender readySession exampleTimeouts (waitZero\<lparr>duration := Some 1\<rparr>) startWorld \<and>
    calls (snd (executeAction exampleRender readySession exampleTimeouts waitZero startWorld))
      = calls startWorld @ [SessWait 1000]) \<and>
   (atype keypressZero = TKeypress \<and> truthyString (key keypressZero) = Some ''ArrowUp'' \<and>
    repeat keypressZero = Some 0 \<and>
    executeAction exampleRender readySession exampleTimeouts keypressZero startWorld
      = executeAction exampleRender readySession exampleTimeouts (keypressZero\<lparr>repeat := Some 1\<rparr>) startWorld \<and>
    calls (snd (executeAction exampleRender readySession exampleTimeouts keypressZero startWorld))
      = calls startWorld @ [SessKeypress ''ArrowUp''])"
proof -
  have w1: "atype waitZero = TWait" and w2: "duration waitZero = Some 0"
    by (simp_all add: waitZero_def)
  have k1: "atype keypressZero = TKeypress"
    and k2: "truthyString (key keypressZero) = Some ''ArrowUp''"
    and k3: "repeat keypressZero = Some 0"
    by (simp_all add: keypressZero_def)
  show ?thesis
    using w1 w2 k1 k2 k3
      falsy_defaults [of waitZero exampleRender readySession exampleTimeouts startWorld "''ArrowUp''"]
      falsy_defaults [of keypressZero exampleRender readySession exampleTimeouts startWorld "''ArrowUp''"]
    by blast
qed

section \<open>Properties of the browser sessions\<close>

lemmas monad_defs = tryCatch_def thenM_def bindM_def returnM_def throwM_def swallow_def
  perform_def waitMs_def

subsection \<open>Awaited backend calls settle\<close>

lemma settles_returnM: "fst (returnM x s) \<noteq> Pending"
  by (simp add: returnM_def)

lemma settles_throwM: "fst (throwM e s) \<noteq> Pending"
  by (simp add: throwM_def)

lemma settles_perform: "fst (perform name r s) \<noteq> Pending"
  by (cases r) (simp_all add: perform_def)

lemma settles_waitMs: "fst (waitMs ms s) \<noteq> Pending"
  by (simp add: waitMs_def)

lemma settles_bindM:
  assumes "\<And>s. fst (m s) \<noteq> Pending" and "\<And>x s. fst (f x s) \<noteq> Pending"
  shows "fst (bindM m f s) \<noteq> Pending"
proof -
  obtain r s' where ms: "m s = (r, s')" by (cases "m s")
  with assms(1) [of s] have "r \<noteq> Pending" by simp
  then show ?thesis
    using ms assms(2) by (cases r) (simp_all add: bindM_def)
qed

lemma settles_thenM:
  assumes "\<And>s. fst (m s) \<noteq> Pending" and "\<And>s. fst (n s) \<noteq> Pending"
  shows "fst (thenM m n s) \<noteq> Pending"
  unfolding thenM_def using assms by (intro settles_bindM)

lemma settles_tryCatch:
  assumes "\<And>s. fst (m s) \<noteq> Pending" and "\<And>e s. fst (h e s) \<noteq> Pending"
  shows "fst (tryCatch m h s) \<noteq> Pending"
proof -
  obtain r s' where ms: "m s = (r, s')" by (cases "m s")
  with assms(1) [of s] have "r \<noteq> Pending" by simp
  then show ?thesis
    using ms assms(2) by (cases r) (simp_all add: tryCatch_def)
qed

lemma settles_swallow:
  assumes "\<And>s. fst (m s) \<noteq> Pending"
  shows "fst (swallow m s) \<noteq> Pending"
  unfolding swallow_def using assms by (intro settles_tryCatch) (simp_all add: returnM_def)

lemmas settles_intros =
  settles_returnM settles_throwM settles_perform settles_waitMs settles_bindM settles_thenM
  settles_tryCatch settles_swallow

lemma settles_discoverConnectUrl: "fst (discoverConnectUrl env s) \<noteq> Pending"
  unfolding discoverConnectUrl_def
  by (simp add: settles_intros)

lemma settles_connectBrowser: "fst (connectBrowser env s) \<noteq> Pending"
  unfolding connectBrowser_def
  by (simp add: settles_intros Let_def split: list.splits)

lemma settles_ensureCDPConnection: "fst (ensureCDPConnection env s) \<noteq> Pending"
  unfolding ensureCDPConnection_def
  by (simp add: settles_intros settles_discoverConnectUrl settles_connectBrowser)

text \<open>A \<^verbatim>\<open>try\<close> whose body settles and whose handler returns, returns.\<close>

lemma tryCatch_returns:
  fixes m :: "('s, unit) prog"
  assumes "fst (m s) \<noteq> Pending" and "\<And>e s'. fst (h e s') = Returned ()"
  shows "fst (tryCatch m h s) = Returned ()"
proof -
  obtain r s' where ms: "m s = (r, s')" by (cases "m s")
  with assms(1) have "r \<noteq> Pending" by simp
  then show ?thesis
    using ms assms(2) by (cases r) (simp_all add: tryCatch_def)
qed

subsection \<open>navigate\<close>

text \<open>
  C4. Whatever the URL, the state of the session and the answers of the backend (the
  connection attempts and each tier of \<^verbatim>\<open>page.goto\<close> succeeding or throwing),
  \<^verbatim>\<open>navigate\<close> returns normally, in the remote and in the local session.
\<close>

theorem navigate_never_raises:
  "fst (bb_navigate env url s) = Returned () \<and> fst (local_navigate goto url t) = Returned ()"
proof
  show "fst (bb_navigate env url s) = Returned ()"
    unfolding bb_navigate_def
    by (rule tryCatch_returns)
      (simp_all add: settles_intros settles_ensureCDPConnection waitMs_def)
  show "fst (local_navigate goto url t) = Returned ()"
    unfolding local_navigate_def
    by (rule tryCatch_returns) (simp_all add: settles_intros waitMs_def)
qed

subsection \<open>close\<close>

lemma bb_close_released:
  assumes "cdpSession s = None" and "browser s = None"
  shows "bb_close env s =
           (replyOutcome (completeSession env),
            s\<lparr>page := None, trace := trace s @ [''client.completeSession'']\<rparr>)"
  using assms by (cases "completeSession env") (simp_all add: bb_close_def monad_defs)

lemma bb_close_releases:
  assumes "detach env = Ok ()" and "browserClose env = Ok ()"
  shows "cdpSession (snd (bb_close env s)) = None \<and> browser (snd (bb_close env s)) = None
     \<and> page (snd (bb_close env s)) = None"
  using assms by (cases "completeSession env") (simp_all add: bb_close_def monad_defs)

lemma local_close_result:
  "local_close env t =
     (Returned (),
      t\<lparr>trace := trace t @ (if cdpSession t \<noteq> None then [''cdpSession.detach''] else [])
           @ [''context.close'', ''browser.close'']\<rparr>)"
  by (cases "detach env"; cases "contextClose env"; cases "browserClose env")
    (simp_all add: local_close_def monad_defs)

text \<open>
  C5, as the specification states it, fails. On a remote session closed once with
  success, a second \<^verbatim>\<open>close\<close> calls \<^verbatim>\<open>completeSession\<close> again and throws when that call
  does; on a local session, a second \<^verbatim>\<open>close\<close> detaches the CDP session and closes the
  context and the browser again.
\<close>

theorem close_twice_counterexample:
  "bb_close closeAgain (snd (bb_close closeOk connectedRemote))
     = (Threw (Error ''Session already completed''),
        connectedRemote\<lparr>trace := [''cdpSession.detach'', ''browser.close'',
             ''client.completeSession'', ''client.completeSession''],
           browser := None, page := None, cdpSession := None\<rparr>)
   \<and> trace (snd (local_close closeOk (snd (local_close closeOk connectedLocal))))
     = [''cdpSession.detach'', ''context.close'', ''browser.close'',
        ''cdpSession.detach'', ''context.close'', ''browser.close'']"
  by (simp add: bb_close_def local_close_def monad_defs closeOk_def closeAgain_def
      connectedRemote_def connectedLocal_def)

text \<open>
  C5, as the code has it. Remote session: after a first \<^verbatim>\<open>close\<close> whose detach and
  browser close succeeded, a second \<^verbatim>\<open>close\<close> makes one backend call,
  \<^verbatim>\<open>completeSession\<close>, and returns or throws as that call does; it does not detach or
  close the browser again. Local session: a second \<^verbatim>\<open>close\<close> returns normally, and it
  repeats the detach (when a CDP session is attached), the context close and the browser
  close.
\<close>

theorem close_again:
  "(detach env1 = Ok () \<longrightarrow> browserClose env1 = Ok () \<longrightarrow>
      bb_close env2 (snd (bb_close env1 s)) =
        (replyOutcome (completeSession env2),
         (snd (bb_close env1 s))\<lparr>trace := trace (snd (bb_close env1 s)) @ [''client.completeSession'']\<rparr>))
   \<and> fst (local_close env2 (snd (local_close env1 t))) = Returned ()
   \<and> trace (snd (local_close env2 (snd (local_close env1 t)))) =
       trace (snd (local_close env1 t))
         @ (if cdpSession t \<noteq> None then [''cdpSession.detach''] else [])
         @ [''context.close'', ''browser.close'']"
proof (intro conjI impI)
  assume ok: "detach env1 = Ok ()" "browserClose env1 = Ok ()"
  let ?s1 = "snd (bb_close env1 s)"
  from bb_close_releases [OF ok, of s]
  have rel: "cdpSession ?s1 = None" "browser ?s1 = None" "page ?s1 = None" by simp_all
  have "?s1\<lparr>page := None\<rparr> = ?s1" using rel(3) by simp
  with bb_close_released [OF rel(1,2), of env2]
  show "bb_close env2 ?s1 =
        (replyOutcome (completeSession env2), ?s1\<lparr>trace := trace ?s1 @ [''client.completeSession'']\<rparr>)"
    by simp
next
  show "fst (local_close env2 (snd (local_close env1 t))) = Returned ()"
    by (simp add: local_close_result)
next
  show "trace (snd (local_close env2 (snd (local_close env1 t)))) =
       trace (snd (local_close env1 t))
         @ (if cdpSession t \<noteq> None then [''cdpSession.detach''] else [])
         @ [''context.close'', ''browser.close'']"
    by (simp add: local_close_result)
qed

theorem close_again_witness:
  "detach closeOk = Ok () \<and> browserClose closeOk = Ok () \<and>
   bb_close closeOk (snd (bb_close closeOk connectedRemote)) =
     (replyOutcome (completeSession closeOk),
      (snd (bb_close closeOk connectedRemote))\<lparr>trace :=
         trace (snd (bb_close closeOk connectedRemote)) @ [''client.completeSession'']\<rparr>)"
proof -
  have ok: "detach closeOk = Ok ()" "browserClose closeOk = Ok ()"
    by (simp_all add: closeOk_def)
  show ?thesis
    using ok close_again [of closeOk closeOk connectedRemote connectedLocal]
    by blast
qed

subsection \<open>screenshot: the wait before the capture\<close>

lemma ensure_connected:
  assumes "page s \<noteq> None" and "cdpSession s \<noteq> None"
  shows "ensureCDPConnection env s = (Returned (), s)"
  using assms by (simp add: ensureCDPConnection_def returnM_def)

text \<open>The local script never waits more than 500 ms; on the two animations it waits 500 ms.\<close>

lemma localSettleDelay_cap: "0 \<le> localSettleDelay anims \<and> localSettleDelay anims \<le> 500"
  by (simp add: localSettleDelay_def split: list.splits jsnumber.splits)

lemma localSettleDelay_twoAnimations: "localSettleDelay twoAnimations = 500"
  by (simp add: localSettleDelay_def twoAnimations_def)

lemma bb_screenshot_clock:
  assumes "page s \<noteq> None" and "cdpSession s \<noteq> None"
  shows "clock (snd (bb_screenshot dec env s)) = clock s + 300"
  using assms
  by (cases "capture env")
    (auto simp add: bb_screenshot_def ensure_connected monad_defs split: option.splits)

text \<open>
  C6. The claim fails on the remote session. The script that should wait for the
  animations is given to the page as a string that is not JavaScript, so its evaluation
  throws and the \<^verbatim>\<open>catch\<close> block waits 300 ms: on a connected session the clock advances
  by exactly 300 ms before the capture, whatever animations the page runs. With two
  animations of 150 ms and 400 ms the method waits 300 ms, not the 400 ms of the claim.
\<close>

theorem remote_screenshot_waits_300:
  "page s \<noteq> None \<longrightarrow> cdpSession s \<noteq> None \<longrightarrow>
     clock (snd (bb_screenshot dec env s)) = clock s + 300"
  using bb_screenshot_clock [of s dec env] by blast

theorem remote_screenshot_waits_300_witness:
  "page connectedRemote \<noteq> None \<and> cdpSession connectedRemote \<noteq> None
   \<and> pageAnimations remoteShot = [Some (Millis 150), Some (Millis 400)]
   \<and> clock (snd (bb_screenshot id remoteShot connectedRemote)) = clock connectedRemote + 300
   \<and> \<not> 400 \<le> clock (snd (bb_screenshot id remoteShot connectedRemote)) - clock connectedRemote"
proof -
  have conn: "page connectedRemote \<noteq> None" "cdpSession connectedRemote \<noteq> None"
    by (simp_all add: connectedRemote_def)
  have anims: "pageAnimations remoteShot = [Some (Millis 150), Some (Millis 400)]"
    by (simp add: remoteShot_def twoAnimations_def)
  from conn remote_screenshot_waits_300 [of connectedRemote id remoteShot]
  have waited: "clock (snd (bb_screenshot id remoteShot connectedRemote)) = clock connectedRemote + 300"
    by blast
  then have short: "\<not> 400 \<le> clock (snd (bb_screenshot id remoteShot connectedRemote)) - clock connectedRemote"
    by simp
  show ?thesis using conn anims waited short by blast
qed

subsection \<open>screenshot: failures of the capture\<close>

lemma bb_screenshot_returned:
  assumes "fst (bb_screenshot dec env s) = Returned b"
  shows "\<exists>r d. capture env = Ok (Some r) \<and> truthyString (data r) = Some d \<and> b = dec d"
proof -
  obtain r s1 where e: "ensureCDPConnection (shot_cdp env) s = (r, s1)"
    by (cases "ensureCDPConnection (shot_cdp env) s")
  show ?thesis
    using assms e
    by (cases r; cases "capture env")
      (auto simp add: bb_screenshot_def monad_defs split: option.splits if_splits)
qed

lemma bb_screenshot_outcome:
  "(\<exists>b. fst (bb_screenshot dec env s) = Returned b)
   \<or> (\<exists>m. fst (bb_screenshot dec env s) = Threw (Error (''Screenshot failed: '' @ m)))"
proof -
  obtain r s1 where e: "ensureCDPConnection (shot_cdp env) s = (r, s1)"
    by (cases "ensureCDPConnection (shot_cdp env) s")
  with settles_ensureCDPConnection [of "shot_cdp env" s] have "r \<noteq> Pending" by simp
  then show ?thesis
    using e
    by (cases r; cases "capture env")
      (auto simp add: bb_screenshot_def monad_defs split: option.splits if_splits)
qed

lemma local_screenshot_returned:
  assumes "fst (local_screenshot lenv t) = Returned b"
  shows "\<exists>c. l_capture lenv = Resolves c b \<and> c \<le> 10000"
  using assms
  by (cases "l_repaint lenv"; cases "l_capture lenv")
    (auto simp add: local_screenshot_def performRace_def monad_defs split: if_splits)

lemma local_screenshot_outcome:
  "(\<exists>b. fst (local_screenshot lenv t) = Returned b)
   \<or> (\<exists>m. fst (local_screenshot lenv t) = Threw (Error (''Screenshot failed: '' @ m)))"
  by (cases "l_repaint lenv"; cases "l_capture lenv")
    (auto simp add: local_screenshot_def performRace_def monad_defs split: if_splits)

text \<open>
  C9, as the specification states it, fails on the local session: the buffer the capture
  resolves with is returned unchecked, so a capture that resolves with an empty buffer
  makes \<^verbatim>\<open>screenshot\<close> return that empty buffer without any error.
\<close>

theorem screenshot_empty_counterexample:
  "local_screenshot localShotEmpty connectedLocal =
     (Returned [],
      connectedLocal\<lparr>trace := [''page.evaluate'', ''page.screenshot''], clock := 550\<rparr>)"
  by (simp add: local_screenshot_def performRace_def monad_defs localShotEmpty_def
      connectedLocal_def localSettleDelay_def twoAnimations_def)

text \<open>
  C9, as the code has it. Remote session: when the capture throws, returns no result or
  a result without data, \<^verbatim>\<open>screenshot\<close> throws an error \<^verbatim>\<open>Screenshot failed: ...\<close>; when it
  returns bytes, they are the decoded non-empty data of a capture that succeeded. Local
  session: when the capture rejects, never settles or takes more than 10 s,
  \<^verbatim>\<open>screenshot\<close> throws an error \<^verbatim>\<open>Screenshot failed: ...\<close>; when it returns a buffer, it
  is the one a capture resolved with in time, whatever its length.
\<close>

theorem screenshot_errors:
  "((capture env = Fail e \<or> capture env = Ok None
       \<or> (capture env = Ok (Some r) \<and> truthyString (data r) = None)) \<longrightarrow>
      (\<exists>m. fst (bb_screenshot dec env s) = Threw (Error (''Screenshot failed: '' @ m))))
   \<and> (fst (bb_screenshot dec env s) = Returned b \<longrightarrow>
      (\<exists>r' d. capture env = Ok (Some r') \<and> truthyString (data r') = Some d \<and> b = dec d))
   \<and> ((l_capture lenv = Rejects c e2 \<or> l_capture lenv = Never
       \<or> (l_capture lenv = Resolves c b2 \<and> 10000 < c)) \<longrightarrow>
      (\<exists>m. fst (local_screenshot lenv t) = Threw (Error (''Screenshot failed: '' @ m))))
   \<and> (fst (local_screenshot lenv t) = Returned b3 \<longrightarrow>
      (\<exists>c'. l_capture lenv = Resolves c' b3 \<and> c' \<le> 10000))"
proof (intro conjI impI)
  assume bad: "capture env = Fail e \<or> capture env = Ok None
       \<or> (capture env = Ok (Some r) \<and> truthyString (data r) = None)"
  have "\<not> (\<exists>b. fst (bb_screenshot dec env s) = Returned b)"
  proof
    assume "\<exists>b. fst (bb_screenshot dec env s) = Returned b"
    then obtain b' where "fst (bb_screenshot dec env s) = Returned b'" ..
    from bb_screenshot_returned [OF this] bad show False by auto
  qed
  with bb_screenshot_outcome [of dec env s]
  show "\<exists>m. fst (bb_screenshot dec env s) = Threw (Error (''Screenshot failed: '' @ m))"
    by blast
next
  assume "fst (bb_screenshot dec env s) = Returned b"
  then show "\<exists>r' d. capture env = Ok (Some r') \<and> truthyString (data r') = Some d \<and> b = dec d"
    by (rule bb_screenshot_returned)
next
  assume bad: "l_capture lenv = Rejects c e2 \<or> l_capture lenv = Never
       \<or> (l_capture lenv = Resolves c b2 \<and> 10000 < c)"
  have "\<not> (\<exists>b. fst (local_screenshot lenv t) = Returned b)"
  proof
    assume "\<exists>b. fst (local_screenshot lenv t) = Returned b"
    then obtain b' where "fst (local_screenshot lenv t) = Returned b'" ..
    from local_screenshot_returned [OF this] bad show False by auto
  qed
  with local_screenshot_outcome [of lenv t]
  show "\<exists>m. fst (local_screenshot lenv t) = Threw (Error (''Screenshot failed: '' @ m))"
    by blast
next
  assume "fst (local_screenshot lenv t) = Returned b3"
  then show "\<exists>c'. l_capture lenv = Resolves c' b3 \<and> c' \<le> 10000"
    by (rule local_screenshot_returned)
qed

theorem screenshot_errors_witness:
  "capture remoteShotNoData = Ok (Some \<lparr>data = None\<rparr>)
   \<and> truthyString (data \<lparr>data = None\<rparr>) = None
   \<and> (\<exists>m. fst (bb_screenshot id remoteShotNoData connectedRemote)
            = Threw (Error (''Screenshot failed: '' @ m)))
   \<and> fst (bb_screenshot id remoteShot connectedRemote) = Returned ''iVBORw0KGgo=''
   \<and> (\<exists>r' d. capture remoteShot = Ok (Some r') \<and> truthyString (data r') = Some d
         \<and> ''iVBORw0KGgo='' = id d)
   \<and> l_capture localShotStuck = Never
   \<and> (\<exists>m. fst (local_screenshot localShotStuck connectedLocal)
            = Threw (Error (''Screenshot failed: '' @ m)))
   \<and> fst (local_screenshot localShot connectedLocal) = Returned [137, 80, 78, 71]
   \<and> (\<exists>c'. l_capture localShot = Resolves c' [137, 80, 78, 71] \<and> c' \<le> 10000)"
proof -
  have h1: "capture remoteShotNoData = Ok (Some \<lparr>data = None\<rparr>)"
    and h2: "truthyString (data \<lparr>data = None\<rparr>) = None"
    and h3: "l_capture localShotStuck = Never"
    by (simp_all add: remoteShotNoData_def localShotStuck_def)
  have h4: "fst (bb_screenshot id remoteShot connectedRemote) = Returned ''iVBORw0KGgo=''"
    by (simp add: bb_screenshot_def ensureCDPConnection_def monad_defs remoteShot_def
        connectedRemote_def)
  have h5: "fst (local_screenshot localShot connectedLocal) = Returned [137, 80, 78, 71]"
    by (simp add: local_screenshot_def performRace_def monad_defs localShot_def
        localSettleDelay_def twoAnimations_def)
  note bad = screenshot_errors [of remoteShotNoData "Error []" "\<lparr>data = None\<rparr>" id connectedRemote
      "[]" localShotStuck 0 "Error []" "[]" connectedLocal "[]"]
  note good = screenshot_errors [of remoteShot "Error []" "\<lparr>data = None\<rparr>" id connectedRemote
      "''iVBORw0KGgo=''" localShot 0 "Error []" "[]" connectedLocal "[137, 80, 78, 71]"]
  from bad h1 h2 have c1: "\<exists>m. fst (bb_screenshot id remoteShotNoData connectedRemote)
            = Threw (Error (''Screenshot failed: '' @ m))" by blast
  from bad h3 have c2: "\<exists>m. fst (local_screenshot localShotStuck connectedLocal)
            = Threw (Error (''Screenshot failed: '' @ m))" by blast
  from good h4 have c3: "\<exists>r' d. capture remoteShot = Ok (Some r') \<and> truthyString (data r') = Some d
         \<and> ''iVBORw0KGgo='' = id d" by blast
  from good h5 have c4: "\<exists>c'. l_capture localShot = Resolves c' [137, 80, 78, 71] \<and> c' \<le> 10000"
    by blast
  show ?thesis using h1 h2 h3 h4 h5 c1 c2 c3 c4 by blast
qed

subsection \<open>clickByText\<close>

lemma settles_orElse:
  assumes "\<And>s. fst (m s) \<noteq> Pending" and "\<And>s. fst (n s) \<noteq> Pending"
  shows "fst (orElse m n s) \<noteq> Pending"
  unfolding orElse_def using assms by (intro settles_bindM) (simp_all add: settles_returnM)

lemma settles_clickStrategy:
  assumes "\<And>s. fst (m s) \<noteq> Pending"
  shows "fst (clickStrategy m s) \<noteq> Pending"
  unfolding clickStrategy_def using assms by (simp add: settles_intros)

lemma settles_clickFirstVisible: "fst (clickFirstVisible els s) \<noteq> Pending"
  by (induction els arbitrary: s) (simp_all add: settles_intros)

text \<open>A \<^verbatim>\<open>try\<close> whose body settles and whose handler returns a value, returns.\<close>

lemma tryCatch_returns_value:
  assumes "fst (m s) \<noteq> Pending"
  shows "\<exists>b s'. tryCatch m (\<lambda>e. returnM c) s = (Returned b, s')"
proof -
  obtain r s1 where ms: "m s = (r, s1)" by (cases "m s")
  with assms have "r \<noteq> Pending" by simp
  then show ?thesis
    using ms by (cases r) (simp_all add: tryCatch_def returnM_def)
qed

lemma settles_clickStrategies: "fst (clickStrategies env text exact s) \<noteq> Pending"
  unfolding clickStrategies_def
  by (simp add: settles_intros settles_orElse settles_clickStrategy)

lemma bb_clickByText_returns: "\<exists>b s'. bb_clickByText env text exact s = (Returned b, s')"
  unfolding bb_clickByText_def
  by (rule tryCatch_returns_value)
    (simp add: settles_intros settles_clickStrategies settles_ensureCDPConnection)

lemma settles_xpathFallback: "fst (xpathFallback env normalizedText s) \<noteq> Pending"
  unfolding xpathFallback_def
  by (simp add: settles_intros settles_clickFirstVisible)

lemma local_clickByText_returns: "\<exists>b s'. local_clickByText env text exact s = (Returned b, s')"
  unfolding local_clickByText_def
  by (rule tryCatch_returns_value) (simp add: settles_intros settles_xpathFallback)

lemma clickStrategy_returns:
  assumes "\<And>s. fst (m s) \<noteq> Pending"
  shows "\<exists>b s'. clickStrategy m s = (Returned b, s')"
  unfolding clickStrategy_def
  by (rule tryCatch_returns_value) (simp add: settles_intros assms)

lemma orElse_last_True:
  assumes "\<exists>b s'. m s = (Returned b, s')" and "\<And>s'. fst (n s') = Returned True"
  shows "fst (orElse m n s) = Returned True"
proof -
  from assms(1) obtain b s' where "m s = (Returned b, s')" by blast
  then show ?thesis
    using assms(2) [of s'] by (simp add: orElse_def bindM_def returnM_def)
qed

lemma scanButtons_finds:
  assumes "b \<in> set bs" and "offsetParent b" and "strIncludes (buttonText b) t"
      and "\<not> clickThrows b"
  shows "scanButtons t bs"
  using assms by (induction bs) auto

lemma scanButtons_none:
  assumes "\<forall>b \<in> set bs. \<not> (offsetParent b \<and> strIncludes (buttonText b) t)"
  shows "\<not> scanButtons t bs"
  using assms by (induction bs) auto

text \<open>On a connected session the method is its chain of strategies.\<close>

lemma bb_clickByText_connected:
  assumes "page s \<noteq> None" and "cdpSession s \<noteq> None"
      and "fst (clickStrategies env text exact s) = Returned b"
  shows "fst (bb_clickByText env text exact s) = Returned b"
proof -
  obtain r s' where run: "clickStrategies env text exact s = (r, s')"
    by (cases "clickStrategies env text exact s")
  with assms(3) have r: "r = Returned b" by simp
  from assms(1) obtain p where p: "page s = Some p" by auto
  have "bb_clickByText env text exact s =
          tryCatch (clickStrategies env text exact) (\<lambda>error. returnM False) s"
    using p ensure_connected [OF assms(1,2), of "click_cdp env"]
    by (simp add: bb_clickByText_def tryCatch_def thenM_def bindM_def)
  then show ?thesis
    using run r by (simp add: tryCatch_def)
qed

lemma clickStrategies_match:
  assumes "pageButtons env = Ok buttons"
      and "b \<in> set buttons" and "offsetParent b" and "\<not> clickThrows b"
      and "strIncludes (buttonText b) (normalizeTarget text)"
  shows "fst (clickStrategies env text exact s) = Returned True"
proof -
  have found: "clickScript text buttons"
    unfolding clickScript_def using assms(2,3,5,4) by (rule scanButtons_finds)
  have last: "\<And>s'. fst (bindM (perform ''page.evaluate'' (pageButtons env))
                         (\<lambda>buttons. if clickScript text buttons
                            then thenM (waitMs 500) (returnM True)
                            else returnM False) s') = Returned True"
    using found assms(1) by (simp add: monad_defs)
  show ?thesis
    unfolding clickStrategies_def
    by (intro orElse_last_True clickStrategy_returns tryCatch_returns_value last)
      (simp_all add: settles_intros)
qed

lemma clickStrategies_no_match:
  assumes "roleWaitFor env = Fail e1" and "textWaitFor env = Fail e2"
      and "filterWaitFor env = Fail e3" and "xpathWaitFor env = Fail e4"
      and "pageButtons env = Ok buttons"
      and "\<forall>b \<in> set buttons. \<not> (offsetParent b \<and> strIncludes (buttonText b) (normalizeTarget text))"
  shows "fst (clickStrategies env text exact s) = Returned False"
proof -
  have none: "\<not> clickScript text buttons"
    unfolding clickScript_def using assms(6) by (rule scanButtons_none)
  show ?thesis
    using assms(1-5) none
    by (cases "regExp env")
      (simp_all add: clickStrategies_def clickStrategy_def orElse_def monad_defs)
qed

subsection \<open>clickByText: whitespace\<close>

lemma isSpace_space: "isSpace (CHR '' '')"
  by (simp add: isSpace_def)

lemma collapse_spaces_True:
  "list_all isSpace ws \<Longrightarrow> collapseFrom True (ws @ s) = collapseFrom True s"
  by (induction ws) simp_all

lemma collapse_spaces_False:
  assumes "list_all isSpace ws" and "ws \<noteq> []"
  shows "collapseFrom False (ws @ s) = CHR '' '' # collapseFrom True s"
proof (cases ws)
  case Nil
  with assms(2) show ?thesis by simp
next
  case (Cons c cs)
  with assms(1) have "isSpace c" "list_all isSpace cs" by simp_all
  with Cons show ?thesis by (simp add: collapse_spaces_True)
qed

lemma collapse_append:
  "collapseFrom f (a @ s) =
     collapseFrom f a @ collapseFrom (if a = [] then f else isSpace (last a)) s"
  by (induction a arbitrary: f) simp_all

lemma collapse_all_spaces:
  "list_all isSpace ws \<Longrightarrow> list_all isSpace (collapseFrom f ws)"
  by (induction ws arbitrary: f) (simp_all add: isSpace_space)

lemma dropWhile_collapse:
  "dropWhile isSpace (collapseFrom False x) = dropWhile isSpace (collapseFrom True x)"
  by (cases x) (simp_all add: isSpace_space)

lemma dropWhile_spaces:
  "list_all isSpace ws \<Longrightarrow> dropWhile isSpace (ws @ s) = dropWhile isSpace s"
  by (induction ws) simp_all

lemma trim_append_spaces:
  assumes "list_all isSpace t"
  shows "trim (y @ t) = trim y"
proof (cases "list_all isSpace y")
  case True
  with assms have both: "dropWhile isSpace (y @ t) = []" and one: "dropWhile isSpace y = []"
    by (simp_all add: dropWhile_eq_Nil_conv list_all_iff)
  show ?thesis unfolding trim_def both one ..
next
  case False
  then have "\<exists>c \<in> set y. \<not> isSpace c" by (simp add: list_all_iff)
  then have front: "dropWhile isSpace (y @ t) = dropWhile isSpace y @ t"
    by (metis dropWhile_append1)
  have "list_all isSpace (rev t)" using assms by (simp add: list_all_iff)
  then have "dropWhile isSpace (rev t @ rev (dropWhile isSpace y))
               = dropWhile isSpace (rev (dropWhile isSpace y))"
    by (rule dropWhile_spaces)
  with front show ?thesis by (simp add: trim_def)
qed

text \<open>Whitespace around a text does not change its normal form.\<close>

lemma normal_padding:
  assumes "list_all isSpace pre" and "list_all isSpace post"
  shows "trim (replaceWhitespace (pre @ s @ post)) = trim (replaceWhitespace s)"
proof -
  have tail: "\<And>x. trim (replaceWhitespace (x @ post)) = trim (replaceWhitespace x)"
    unfolding replaceWhitespace_def collapse_append [of False _ post]
    by (rule trim_append_spaces) (rule collapse_all_spaces [OF assms(2)])
  have front: "dropWhile isSpace (replaceWhitespace (pre @ s)) = dropWhile isSpace (replaceWhitespace s)"
  proof (cases "pre = []")
    case True
    then show ?thesis by simp
  next
    case False
    with assms(1) show ?thesis
      by (simp add: replaceWhitespace_def collapse_spaces_False isSpace_space dropWhile_collapse)
  qed
  have "trim (replaceWhitespace (pre @ s @ post)) = trim (replaceWhitespace (pre @ s))"
    using tail [of "pre @ s"] by simp
  also have "\<dots> = trim (replaceWhitespace s)"
    using front by (simp add: trim_def)
  finally show ?thesis .
qed

text \<open>A run of whitespace inside a text is as good as one space.\<close>

lemma normal_gap:
  assumes "list_all isSpace gap" and "gap \<noteq> []"
  shows "replaceWhitespace (a @ gap @ b) = replaceWhitespace (a @ CHR '' '' # b)"
proof (cases "a \<noteq> [] \<and> isSpace (last a)")
  case True
  with assms(1) show ?thesis
    by (simp add: replaceWhitespace_def collapse_append [of False a] collapse_spaces_True
        isSpace_space)
next
  case False
  then have start: "(if a = [] then False else isSpace (last a)) = False" by auto
  have "collapseFrom False (gap @ b) = CHR '' '' # collapseFrom True b"
    using assms by (rule collapse_spaces_False)
  then show ?thesis
    by (simp add: replaceWhitespace_def collapse_append [of False a] start isSpace_space)
qed

lemma toLowerChar_space: "isSpace c \<Longrightarrow> toLowerChar c = c"
  by (auto simp add: isSpace_def toLowerChar_def)

lemma toLowerCase_spaces: "list_all isSpace ws \<Longrightarrow> toLowerCase ws = ws"
  by (induction ws) (simp_all add: toLowerCase_def toLowerChar_space)

lemma normalizeTarget_padding:
  assumes "list_all isSpace pre" and "list_all isSpace post"
  shows "normalizeTarget (pre @ t @ post) = normalizeTarget t"
proof -
  have "toLowerCase (pre @ t @ post) = pre @ toLowerCase t @ post"
    using assms toLowerCase_spaces by (simp add: toLowerCase_def)
  then show ?thesis
    using assms by (simp add: normalizeTarget_def normal_padding)
qed

lemma normalizeTarget_gap:
  assumes "list_all isSpace gap" and "gap \<noteq> []"
  shows "normalizeTarget (a @ gap @ b) = normalizeTarget (a @ CHR '' '' # b)"
proof -
  have "toLowerCase (a @ gap @ b) = toLowerCase a @ gap @ toLowerCase b"
    using assms toLowerCase_spaces by (simp add: toLowerCase_def)
  moreover have "toLowerCase (a @ CHR '' '' # b) = toLowerCase a @ CHR '' '' # toLowerCase b"
    using toLowerChar_space [OF isSpace_space] by (simp add: toLowerCase_def)
  ultimately show ?thesis
    using assms by (simp add: normalizeTarget_def normal_gap)
qed

lemma buttonText_padding:
  assumes "list_all isSpace pre" and "list_all isSpace post" and "textContent b \<noteq> []"
  shows "buttonText (b\<lparr>textContent := pre @ textContent b @ post\<rparr>) = buttonText b"
  using assms by (simp add: buttonText_def normal_padding)

lemma buttonText_gap:
  assumes "list_all isSpace gap" and "gap \<noteq> []"
  shows "buttonText (b\<lparr>textContent := x @ gap @ y\<rparr>) = buttonText (b\<lparr>textContent := x @ CHR '' '' # y\<rparr>)"
  using assms by (simp add: buttonText_def normal_gap)

subsection \<open>clickByText: results\<close>

lemma clickFirstVisible_clicks:
  assumes "\<forall>e \<in> set els. elementClick e = Ok ()" and "el \<in> set els" and "isVisible el = Ok True"
  shows "fst (clickFirstVisible els s) = Returned True"
  using assms
proof (induction els arbitrary: s)
  case Nil
  then show ?case by simp
next
  case (Cons x xs)
  show ?case
    using Cons.IH Cons.prems
    by (cases "isVisible x") (auto simp add: monad_defs)
qed

lemma xpathFallback_match:
  assumes "locatorAll env = Ok els" and "\<forall>e \<in> set els. elementClick e = Ok ()"
      and "el \<in> set els" and "isVisible el = Ok True"
      and "CHR 0x22 \<notin> set wanted" and "strIncludes (elementText el) (jsonEscape wanted)"
  shows "fst (xpathFallback env wanted s) = Returned True"
proof -
  let ?found = "xpathContains (jsonEscape wanted) els"
  have "\<forall>e \<in> set ?found. elementClick e = Ok ()" and "el \<in> set ?found"
    using assms(2,3,6) by (simp_all add: xpathContains_def)
  then have scan: "\<And>s'. fst (clickFirstVisible ?found s') = Returned True"
    using assms(4) by (rule clickFirstVisible_clicks)
  obtain r s1 where run: "clickFirstVisible ?found
      (s\<lparr>trace := trace s @ [''locator xpath all'']\<rparr>) = (r, s1)"
    by (cases rule: prod.exhaust)
  with scan have "r = Returned True" by (metis fst_conv)
  with run show ?thesis
    using assms(1,5) by (simp add: xpathFallback_def bindM_def perform_def)
qed

lemma xpathFallback_no_match:
  assumes "CHR 0x22 \<in> set wanted
           \<or> (locatorAll env = Ok els
               \<and> (\<forall>e \<in> set els. \<not> strIncludes (elementText e) (jsonEscape wanted)))"
  shows "fst (tryCatch (xpathFallback env wanted) (\<lambda>error. returnM False) s) = Returned False"
proof (cases "CHR 0x22 \<in> set wanted")
  case True
  then show ?thesis by (simp add: xpathFallback_def monad_defs)
next
  case False
  with assms have all: "locatorAll env = Ok els"
    and none: "xpathContains (jsonEscape wanted) els = []"
    by (auto simp add: xpathContains_def)
  with False show ?thesis by (simp add: xpathFallback_def monad_defs)
qed

text \<open>What the local method does once the focus and \<^verbatim>\<open>getByText\<close> have answered.\<close>

lemma local_clickByText_fallback:
  assumes "focusBody env = Ok ()" and "getByTextVisible env \<noteq> Ok True"
  shows "\<exists>s1. local_clickByText env text exact s =
           tryCatch (xpathFallback env (trim (replaceWhitespace text))) (\<lambda>error. returnM False) s1"
  using assms
  by (cases "getByTextVisible env") (auto simp add: local_clickByText_def monad_defs)

lemma local_clickByText_match:
  assumes "focusBody env = Ok ()" and "getByTextClick env = Ok ()"
      and "locatorAll env = Ok els" and "\<forall>e \<in> set els. elementClick e = Ok ()"
      and "el \<in> set els" and "isVisible el = Ok True"
      and "CHR 0x22 \<notin> set (trim (replaceWhitespace text))"
      and "strIncludes (elementText el) (jsonEscape (trim (replaceWhitespace text)))"
  shows "fst (local_clickByText env text exact s) = Returned True"
proof (cases "getByTextVisible env = Ok True")
  case True
  with assms(1,2) show ?thesis by (simp add: local_clickByText_def monad_defs)
next
  case False
  from local_clickByText_fallback [OF assms(1) False, of "text" exact s]
  obtain s1 where run: "local_clickByText env text exact s =
      tryCatch (xpathFallback env (trim (replaceWhitespace text))) (\<lambda>error. returnM False) s1"
    by blast
  obtain r s2 where fb: "xpathFallback env (trim (replaceWhitespace text)) s1 = (r, s2)"
    by (cases rule: prod.exhaust)
  with xpathFallback_match [OF assms(3,4,5,6,7,8), of s1] have "r = Returned True" by simp
  with run fb show ?thesis by (simp add: tryCatch_def)
qed

lemma local_clickByText_no_match:
  assumes "getByTextVisible env \<noteq> Ok True"
      and "CHR 0x22 \<in> set (trim (replaceWhitespace text))
           \<or> (locatorAll env = Ok els
               \<and> (\<forall>e \<in> set els. \<not> strIncludes (elementText e)
                     (jsonEscape (trim (replaceWhitespace text)))))"
  shows "fst (local_clickByText env text exact s) = Returned False"
proof (cases "focusBody env")
  case (Fail e)
  then show ?thesis by (simp add: local_clickByText_def monad_defs)
next
  case (Ok u)
  then have "focusBody env = Ok ()" by simp
  from local_clickByText_fallback [OF this assms(1), of "text" exact s]
  obtain s1 where run: "local_clickByText env text exact s =
      tryCatch (xpathFallback env (trim (replaceWhitespace text))) (\<lambda>error. returnM False) s1"
    by blast
  with xpathFallback_no_match [OF assms(2), where s = s1] show ?thesis by simp
qed

lemma local_clickByText_normal:
  assumes "trim (replaceWhitespace text) = trim (replaceWhitespace other)"
  shows "local_clickByText env text exact s = local_clickByText env other exact s"
  unfolding local_clickByText_def assms ..

lemma paddedPlay_matches:
  "strIncludes (toLowerCase (trim (replaceWhitespace paddedPlay))) (normalizeTarget ''Play'')
   \<and> CHR 0x22 \<notin> set (trim (replaceWhitespace ''Play''))
   \<and> strIncludes paddedPlay (jsonEscape (trim (replaceWhitespace ''Play'')))"
  by code_simp

text \<open>
  C7. \<^verbatim>\<open>clickByText\<close> returns a boolean whatever the backend answers, in both sessions.
  The page function of the remote method matches on normalised texts: whitespace around
  the wanted text or around a button's text, and the choice of whitespace inside them,
  do not change what it finds. On a connected remote session, if the document has a
  visible button on which \<^verbatim>\<open>click()\<close> does not throw and whose normalised text includes the
  normalised wanted text, \<^verbatim>\<open>clickByText\<close> returns true (one of the locator strategies
  clicks, or the page function does); so it does for \<^verbatim>\<open>clickByText("Play")\<close> on the button
  text \<^verbatim>\<open>"  Play  \n"\<close>. If the four locators find nothing and no visible button matches,
  it returns false. The local method normalises the wanted text before any use, so
  whitespace around and inside it makes no difference; if an element whose text contains
  the normalised wanted text is visible and clicks succeed it returns true, as for
  \<^verbatim>\<open>"Play"\<close> on \<^verbatim>\<open>"  Play  \n"\<close>; if \<^verbatim>\<open>getByText\<close> shows nothing and no element's text
  contains the wanted text (or the wanted text has a double quote, on which the XPath
  locator throws), it returns false.
\<close>

theorem clickByText_boolean_and_matching:
  "(\<exists>r s'. bb_clickByText env text exact s = (Returned r, s'))
   \<and> (\<exists>r t'. local_clickByText lenv text exact t = (Returned r, t'))
   \<and> (list_all isSpace pre \<longrightarrow> list_all isSpace post \<longrightarrow>
        clickScript (pre @ text @ post) buttons = clickScript text buttons
        \<and> (textContent btn \<noteq> [] \<longrightarrow>
             buttonText (btn\<lparr>textContent := pre @ textContent btn @ post\<rparr>) = buttonText btn))
   \<and> (list_all isSpace gap \<longrightarrow> gap \<noteq> [] \<longrightarrow>
        clickScript (u @ gap @ v) buttons = clickScript (u @ CHR '' '' # v) buttons
        \<and> buttonText (btn\<lparr>textContent := u @ gap @ v\<rparr>)
            = buttonText (btn\<lparr>textContent := u @ CHR '' '' # v\<rparr>))
   \<and> (page s \<noteq> None \<longrightarrow> cdpSession s \<noteq> None \<longrightarrow> pageButtons env = Ok buttons \<longrightarrow>
        btn \<in> set buttons \<longrightarrow> offsetParent btn \<longrightarrow> \<not> clickThrows btn \<longrightarrow>
        strIncludes (buttonText btn) (normalizeTarget text) \<longrightarrow>
        fst (bb_clickByText env text exact s) = Returned True)
   \<and> (page s \<noteq> None \<longrightarrow> cdpSession s \<noteq> None \<longrightarrow> pageButtons env = Ok buttons \<longrightarrow>
        btn \<in> set buttons \<longrightarrow> textContent btn = paddedPlay \<longrightarrow> offsetParent btn \<longrightarrow>
        \<not> clickThrows btn \<longrightarrow>
        fst (bb_clickByText env ''Play'' exact s) = Returned True)
   \<and> (page s \<noteq> None \<longrightarrow> cdpSession s \<noteq> None \<longrightarrow>
        roleWaitFor env = Fail ea \<longrightarrow> textWaitFor env = Fail eb \<longrightarrow>
        filterWaitFor env = Fail ec \<longrightarrow> xpathWaitFor env = Fail ed \<longrightarrow>
        pageButtons env = Ok buttons \<longrightarrow>
        (\<forall>b \<in> set buttons. \<not> (offsetParent b \<and> strIncludes (buttonText b) (normalizeTarget text))) \<longrightarrow>
        fst (bb_clickByText env text exact s) = Returned False)
   \<and> (list_all isSpace pre \<longrightarrow> list_all isSpace post \<longrightarrow>
        local_clickByText lenv (pre @ text @ post) exact t = local_clickByText lenv text exact t)
   \<and> (list_all isSpace gap \<longrightarrow> gap \<noteq> [] \<longrightarrow>
        local_clickByText lenv (u @ gap @ v) exact t
          = local_clickByText lenv (u @ CHR '' '' # v) exact t)
   \<and> (focusBody lenv = Ok () \<longrightarrow> getByTextClick lenv = Ok () \<longrightarrow> locatorAll lenv = Ok els \<longrightarrow>
        (\<forall>e \<in> set els. elementClick e = Ok ()) \<longrightarrow>
        el \<in> set els \<longrightarrow> isVisible el = Ok True \<longrightarrow>
        CHR 0x22 \<notin> set (trim (replaceWhitespace text)) \<longrightarrow>
        strIncludes (elementText el) (jsonEscape (trim (replaceWhitespace text))) \<longrightarrow>
        fst (local_clickByText lenv text exact t) = Returned True)
   \<and> (focusBody lenv = Ok () \<longrightarrow> getByTextClick lenv = Ok () \<longrightarrow> locatorAll lenv = Ok els \<longrightarrow>
        (\<forall>e \<in> set els. elementClick e = Ok ()) \<longrightarrow>
        el \<in> set els \<longrightarrow> elementText el = paddedPlay \<longrightarrow> isVisible el = Ok True \<longrightarrow>
        fst (local_clickByText lenv ''Play'' exact t) = Returned True)
   \<and> (getByTextVisible lenv \<noteq> Ok True \<longrightarrow>
        (CHR 0x22 \<in> set (trim (replaceWhitespace text))
         \<or> (locatorAll lenv = Ok els
             \<and> (\<forall>e \<in> set els. \<not> strIncludes (elementText e)
                   (jsonEscape (trim (replaceWhitespace text)))))) \<longrightarrow>
        fst (local_clickByText lenv text exact t) = Returned False)"
proof (intro conjI impI)
  show "\<exists>r s'. bb_clickByText env text exact s = (Returned r, s')"
    by (rule bb_clickByText_returns)
  show "\<exists>r t'. local_clickByText lenv text exact t = (Returned r, t')"
    by (rule local_clickByText_returns)
next
  assume "list_all isSpace pre" "list_all isSpace post"
  then show "clickScript (pre @ text @ post) buttons = clickScript text buttons"
    by (simp add: clickScript_def normalizeTarget_padding)
next
  assume "list_all isSpace pre" "list_all isSpace post" "textContent btn \<noteq> []"
  then show "buttonText (btn\<lparr>textContent := pre @ textContent btn @ post\<rparr>) = buttonText btn"
    by (rule buttonText_padding)
next
  assume "list_all isSpace gap" "gap \<noteq> []"
  then show "clickScript (u @ gap @ v) buttons = clickScript (u @ CHR '' '' # v) buttons"
    by (simp add: clickScript_def normalizeTarget_gap)
next
  assume "list_all isSpace gap" "gap \<noteq> []"
  then show "buttonText (btn\<lparr>textContent := u @ gap @ v\<rparr>)
            = buttonText (btn\<lparr>textContent := u @ CHR '' '' # v\<rparr>)"
    by (rule buttonText_gap)
next
  assume conn: "page s \<noteq> None" "cdpSession s \<noteq> None"
    and dom: "pageButtons env = Ok buttons" "btn \<in> set buttons" "offsetParent btn"
      "\<not> clickThrows btn" "strIncludes (buttonText btn) (normalizeTarget text)"
  from dom have "fst (clickStrategies env text exact s) = Returned True"
    by (rule clickStrategies_match)
  with conn show "fst (bb_clickByText env text exact s) = Returned True"
    by (rule bb_clickByText_connected)
next
  assume conn: "page s \<noteq> None" "cdpSession s \<noteq> None"
    and dom: "pageButtons env = Ok buttons" "btn \<in> set buttons" "textContent btn = paddedPlay"
      "offsetParent btn" "\<not> clickThrows btn"
  have "paddedPlay \<noteq> []" by (simp add: paddedPlay_def)
  with dom(3) have "buttonText btn = toLowerCase (trim (replaceWhitespace paddedPlay))"
    by (simp add: buttonText_def)
  with paddedPlay_matches have "strIncludes (buttonText btn) (normalizeTarget ''Play'')"
    by simp
  with dom have "fst (clickStrategies env ''Play'' exact s) = Returned True"
    by (intro clickStrategies_match)
  with conn show "fst (bb_clickByText env ''Play'' exact s) = Returned True"
    by (rule bb_clickByText_connected)
next
  assume conn: "page s \<noteq> None" "cdpSession s \<noteq> None"
    and miss: "roleWaitFor env = Fail ea" "textWaitFor env = Fail eb"
      "filterWaitFor env = Fail ec" "xpathWaitFor env = Fail ed" "pageButtons env = Ok buttons"
      "\<forall>b \<in> set buttons. \<not> (offsetParent b \<and> strIncludes (buttonText b) (normalizeTarget text))"
  from miss have "fst (clickStrategies env text exact s) = Returned False"
    by (rule clickStrategies_no_match)
  with conn show "fst (bb_clickByText env text exact s) = Returned False"
    by (rule bb_clickByText_connected)
next
  assume "list_all isSpace pre" "list_all isSpace post"
  then have "trim (replaceWhitespace (pre @ text @ post)) = trim (replaceWhitespace text)"
    by (rule normal_padding)
  then show "local_clickByText lenv (pre @ text @ post) exact t = local_clickByText lenv text exact t"
    by (rule local_clickByText_normal)
next
  assume "list_all isSpace gap" "gap \<noteq> []"
  then have "replaceWhitespace (u @ gap @ v) = replaceWhitespace (u @ CHR '' '' # v)"
    by (rule normal_gap)
  then have "trim (replaceWhitespace (u @ gap @ v)) = trim (replaceWhitespace (u @ CHR '' '' # v))"
    by simp
  then show "local_clickByText lenv (u @ gap @ v) exact t
          = local_clickByText lenv (u @ CHR '' '' # v) exact t"
    by (rule local_clickByText_normal)
next
  assume "focusBody lenv = Ok ()" "getByTextClick lenv = Ok ()" "locatorAll lenv = Ok els"
    "\<forall>e \<in> set els. elementClick e = Ok ()" "el \<in> set els" "isVisible el = Ok True"
    "CHR 0x22 \<notin> set (trim (replaceWhitespace text))"
    "strIncludes (elementText el) (jsonEscape (trim (replaceWhitespace text)))"
  then show "fst (local_clickByText lenv text exact t) = Returned True"
    by (rule local_clickByText_match)
next
  assume pg: "focusBody lenv = Ok ()" "getByTextClick lenv = Ok ()" "locatorAll lenv = Ok els"
    "\<forall>e \<in> set els. elementClick e = Ok ()" "el \<in> set els"
    and eltext: "elementText el = paddedPlay" and vis: "isVisible el = Ok True"
  from paddedPlay_matches have noquote: "CHR 0x22 \<notin> set (trim (replaceWhitespace ''Play''))"
    and inside: "strIncludes paddedPlay (jsonEscape (trim (replaceWhitespace ''Play'')))"
    by blast+
  from inside eltext
  have "strIncludes (elementText el) (jsonEscape (trim (replaceWhitespace ''Play'')))"
    by (simp only:)
  with pg vis noquote show "fst (local_clickByText lenv ''Play'' exact t) = Returned True"
    by (intro local_clickByText_match)
next
  assume "getByTextVisible lenv \<noteq> Ok True"
    "CHR 0x22 \<in> set (trim (replaceWhitespace text))
         \<or> (locatorAll lenv = Ok els
             \<and> (\<forall>e \<in> set els. \<not> strIncludes (elementText e)
                   (jsonEscape (trim (replaceWhitespace text)))))"
  then show "fst (local_clickByText lenv text exact t) = Returned False"
    by (rule local_clickByText_no_match)
qed

theorem clickByText_boolean_and_matching_witness:
  "fst (bb_clickByText (locatorsFail [quitButton, playButton]) ''Play'' False connectedRemote) = Returned True
   \<and> fst (bb_clickByText (locatorsFail [quitButton, playNowButton]) shoutedPlayNow False connectedRemote) = Returned True
   \<and> fst (bb_clickByText (locatorsFail [eteButton]) capitalEte False connectedRemote) = Returned True
   \<and> fst (bb_clickByText (locatorsFail [quitButton]) ''Play'' False connectedRemote) = Returned False
   \<and> clickScript ([CHR 0x09, CHR '' ''] @ ''Play'' @ [CHR 0x0A]) [playButton] = clickScript ''Play'' [playButton]
   \<and> buttonText (quitButton\<lparr>textContent := [CHR 0x09] @ textContent quitButton @ [CHR 0x0A]\<rparr>)
       = buttonText quitButton
   \<and> clickScript (''Play'' @ [CHR 0x09, CHR 0x0A] @ ''Now'') [playNowButton]
       = clickScript (''Play'' @ CHR '' '' # ''Now'') [playNowButton]
   \<and> fst (local_clickByText (localPage [quitElement, playElement]) ''Play'' False connectedLocal) = Returned True
   \<and> fst (local_clickByText (localPage [quitElement]) ''Play'' False connectedLocal) = Returned False
   \<and> fst (local_clickByText (localPage [quotedGoElement]) quotedGo False connectedLocal) = Returned False
   \<and> local_clickByText (localPage [playElement]) ([CHR 0x09, CHR '' ''] @ ''Play'' @ [CHR 0x0A]) False connectedLocal
       = local_clickByText (localPage [playElement]) ''Play'' False connectedLocal
   \<and> local_clickByText (localPage [playElement]) (''Play'' @ [CHR 0x09, CHR 0x0A] @ ''Now'') False connectedLocal
       = local_clickByText (localPage [playElement]) (''Play'' @ CHR '' '' # ''Now'') False connectedLocal
   \<and> fst (local_clickByText (localPage [quitElement, playElement]) paddedPlay False connectedLocal) = Returned True"
proof -
  have conn: "page connectedRemote \<noteq> None" "cdpSession connectedRemote \<noteq> None"
    by (simp_all add: connectedRemote_def)
  have spaces: "list_all isSpace [CHR 0x09, CHR '' '']" "list_all isSpace [CHR 0x0A]"
    "list_all isSpace [CHR 0x09]" "list_all isSpace [CHR 0x09, CHR 0x0A]"
    "[CHR 0x09, CHR 0x0A] \<noteq> []" "textContent quitButton \<noteq> []"
    by (simp_all add: isSpace_def quitButton_def)
  have hit: "pageButtons (locatorsFail [quitButton, playButton]) = Ok [quitButton, playButton]"
    "playButton \<in> set [quitButton, playButton]" "textContent playButton = paddedPlay"
    "offsetParent playButton" "\<not> clickThrows playButton"
    by (simp_all add: locatorsFail_def playButton_def)
  have shout: "pageButtons (locatorsFail [quitButton, playNowButton]) = Ok [quitButton, playNowButton]"
    "playNowButton \<in> set [quitButton, playNowButton]"
    "offsetParent playNowButton" "\<not> clickThrows playNowButton"
    by (simp_all add: locatorsFail_def playNowButton_def)
  have shout_match: "strIncludes (buttonText playNowButton) (normalizeTarget shoutedPlayNow)"
    by code_simp
  have ete: "pageButtons (locatorsFail [eteButton]) = Ok [eteButton]"
    "eteButton \<in> set [eteButton]" "offsetParent eteButton" "\<not> clickThrows eteButton"
    by (simp_all add: locatorsFail_def eteButton_def)
  have ete_match: "strIncludes (buttonText eteButton) (normalizeTarget capitalEte)"
    by code_simp
  have miss: "roleWaitFor (locatorsFail [quitButton]) = Fail (Error ''Timeout 2000ms exceeded'')"
    "textWaitFor (locatorsFail [quitButton]) = Fail (Error ''Timeout 2000ms exceeded'')"
    "filterWaitFor (locatorsFail [quitButton]) = Fail (Error ''Timeout 2000ms exceeded'')"
    "xpathWaitFor (locatorsFail [quitButton]) = Fail (Error ''Timeout 2000ms exceeded'')"
    "pageButtons (locatorsFail [quitButton]) = Ok [quitButton]"
    by (simp_all add: locatorsFail_def)
  have miss_none: "\<forall>b \<in> set [quitButton]. \<not> (offsetParent b \<and> strIncludes (buttonText b) (normalizeTarget ''Play''))"
    by code_simp
  have lhit: "focusBody (localPage [quitElement, playElement]) = Ok ()"
    "getByTextClick (localPage [quitElement, playElement]) = Ok ()"
    "locatorAll (localPage [quitElement, playElement]) = Ok [quitElement, playElement]"
    "\<forall>e \<in> set [quitElement, playElement]. elementClick e = Ok ()"
    "playElement \<in> set [quitElement, playElement]" "elementText playElement = paddedPlay"
    "isVisible playElement = Ok True"
    by (simp_all add: localPage_def playElement_def quitElement_def)
  have lmiss: "getByTextVisible (localPage [quitElement]) \<noteq> Ok True"
    "locatorAll (localPage [quitElement]) = Ok [quitElement]"
    by (simp_all add: localPage_def)
  have lmiss_none: "\<forall>e \<in> set [quitElement]. \<not> strIncludes (elementText e)
        (jsonEscape (trim (replaceWhitespace ''Play'')))"
    by code_simp
  have lquote: "getByTextVisible (localPage [quotedGoElement]) \<noteq> Ok True"
    by (simp add: localPage_def)
  have lgen: "CHR 0x22 \<notin> set (trim (replaceWhitespace paddedPlay))"
    "strIncludes (elementText playElement) (jsonEscape (trim (replaceWhitespace paddedPlay)))"
    by code_simp+
  have lquote_in: "CHR 0x22 \<in> set (trim (replaceWhitespace quotedGo))"
    by code_simp
  have c1: "fst (bb_clickByText (locatorsFail [quitButton, playButton]) ''Play'' False connectedRemote) = Returned True"
    by (rule clickByText_boolean_and_matching [THEN conjunct2, THEN conjunct2, THEN conjunct2, THEN conjunct2, THEN conjunct2, THEN conjunct1, rule_format, OF conn hit])
  have c2: "fst (bb_clickByText (locatorsFail [quitButton, playNowButton]) shoutedPlayNow False connectedRemote) = Returned True"
    by (rule clickByText_boolean_and_matching [THEN conjunct2, THEN conjunct2, THEN conjunct2, THEN conjunct2, THEN conjunct1, rule_format, OF conn shout shout_match])
  have c3: "fst (bb_clickByText (locatorsFail [eteButton]) capitalEte False connectedRemote) = Returned True"
    by (rule clickByText_boolean_and_matching [THEN conjunct2, THEN conjunct2, THEN conjunct2, THEN conjunct2, THEN conjunct1, rule_format, OF conn ete ete_match])
  have c4: "fst (bb_clickByText (locatorsFail [quitButton]) ''Play'' False connectedRemote) = Returned False"
    by (rule clickByText_boolean_and_matching [THEN conjunct2, THEN conjunct2, THEN conjunct2, THEN conjunct2, THEN conjunct2, THEN conjunct2, THEN conjunct1, rule_format, OF conn miss miss_none [rule_format]])
  have c5: "clickScript ([CHR 0x09, CHR '' ''] @ ''Play'' @ [CHR 0x0A]) [playButton] = clickScript ''Play'' [playButton]"
    by (rule clickByText_boolean_and_matching [THEN conjunct2, THEN conjunct2, THEN conjunct1, rule_format, OF spaces(1) spaces(2), THEN conjunct1])
  have c6: "buttonText (quitButton\<lparr>textContent := [CHR 0x09] @ textContent quitButton @ [CHR 0x0A]\<rparr>)
       = buttonText quitButton"
    by (rule clickByText_boolean_and_matching [THEN conjunct2, THEN conjunct2, THEN conjunct1, rule_format, OF spaces(3) spaces(2), THEN conjunct2, rule_format, OF spaces(6)])
  have c7: "clickScript (''Play'' @ [CHR 0x09, CHR 0x0A] @ ''Now'') [playNowButton]
       = clickScript (''Play'' @ CHR '' '' # ''Now'') [playNowButton]"
    by (rule clickByText_boolean_and_matching [THEN conjunct2, THEN conjunct2, THEN conjunct2, THEN conjunct1, rule_format, OF spaces(4) spaces(5), THEN conjunct1])
  have c8: "fst (local_clickByText (localPage [quitElement, playElement]) ''Play'' False connectedLocal) = Returned True"
    by (rule clickByText_boolean_and_matching [THEN conjunct2, THEN conjunct2, THEN conjunct2, THEN conjunct2, THEN conjunct2, THEN conjunct2, THEN conjunct2, THEN conjunct2, THEN conjunct2, THEN conjunct2, THEN conjunct1, rule_format, OF lhit(1-3) lhit(4) [rule_format] lhit(5-7)])
  have c9: "fst (local_clickByText (localPage [quitElement]) ''Play'' False connectedLocal) = Returned False"
    by (rule clickByText_boolean_and_matching [THEN conjunct2, THEN conjunct2, THEN conjunct2, THEN conjunct2, THEN conjunct2, THEN conjunct2, THEN conjunct2, THEN conjunct2, THEN conjunct2, THEN conjunct2, THEN conjunct2, rule_format, OF lmiss(1) disjI2, OF conjI, OF lmiss(2) lmiss_none])
  have c10: "fst (local_clickByText (localPage [quotedGoElement]) quotedGo False connectedLocal) = Returned False"
    by (rule clickByText_boolean_and_matching [THEN conjunct2, THEN conjunct2, THEN conjunct2, THEN conjunct2, THEN conjunct2, THEN conjunct2, THEN conjunct2, THEN conjunct2, THEN conjunct2, THEN conjunct2, THEN conjunct2, rule_format, OF lquote disjI1, OF lquote_in])
  have c11: "local_clickByText (localPage [playElement]) ([CHR 0x09, CHR '' ''] @ ''Play'' @ [CHR 0x0A]) False connectedLocal
       = local_clickByText (localPage [playElement]) ''Play'' False connectedLocal"
    by (rule clickByText_boolean_and_matching [THEN conjunct2, THEN conjunct2, THEN conjunct2, THEN conjunct2, THEN conjunct2, THEN conjunct2, THEN conjunct2, THEN conjunct1, rule_format, OF spaces(1) spaces(2)])
  have c12: "local_clickByText (localPage [playElement]) (''Play'' @ [CHR 0x09, CHR 0x0A] @ ''Now'') False connectedLocal
       = local_clickByText (localPage [playElement]) (''Play'' @ CHR '' '' # ''Now'') False connectedLocal"
    by (rule clickByText_boolean_and_matching [THEN conjunct2, THEN conjunct2, THEN conjunct2, THEN conjunct2, THEN conjunct2, THEN conjunct2, THEN conjunct2, THEN conjunct2, THEN conjunct1, rule_format, OF spaces(4) spaces(5)])
  have c13: "fst (local_clickByText (localPage [quitElement, playElement]) paddedPlay False connectedLocal) = Returned True"
    by (rule clickByText_boolean_and_matching [THEN conjunct2, THEN conjunct2, THEN conjunct2, THEN conjunct2, THEN conjunct2, THEN conjunct2, THEN conjunct2, THEN conjunct2, THEN conjunct2, THEN conjunct1, rule_format, OF lhit(1-3) lhit(4) [rule_format] lhit(5) lhit(7) lgen])
  show ?thesis using c1 c2 c3 c4 c5 c6 c7 c8 c9 c10 c11 c12 c13 by blast
qed

subsection \<open>switchToIframe\<close>

lemma settles_enterFrame: "fst (enterFrame i s) \<noteq> Pending"
  unfolding enterFrame_def
  by (intro settles_bindM settles_perform) (simp split: option.splits)

lemma settles_largestIframeLoop: "fst (largestIframeLoop ifs cur m s) \<noteq> Pending"
proof (induction ifs arbitrary: cur m s)
  case Nil
  show ?case by (simp add: settles_returnM)
next
  case (Cons i rest)
  show ?case
    by (simp add: settles_bindM settles_perform Cons.IH split: option.splits)
qed

lemma settles_switchToFrame: "fst (switchToFrame env wanted s) \<noteq> Pending"
  unfolding switchToFrame_def
  by (intro settles_orElse)
    (simp_all add: settles_intros settles_enterFrame settles_largestIframeLoop
      split: option.splits)

lemma bb_switchToIframe_returns: "\<exists>b s'. bb_switchToIframe cenv env wanted s = (Returned b, s')"
  unfolding bb_switchToIframe_def
  by (rule tryCatch_returns_value)
    (simp add: settles_intros settles_switchToFrame settles_ensureCDPConnection)

lemma local_switchToIframe_returns: "\<exists>b s'. local_switchToIframe env wanted s = (Returned b, s')"
  unfolding local_switchToIframe_def
  by (rule tryCatch_returns_value) (simp add: settles_switchToFrame)

lemma bb_switchToIframe_connected:
  assumes "page s \<noteq> None" and "cdpSession s \<noteq> None"
  shows "bb_switchToIframe cenv env wanted s =
           tryCatch (switchToFrame env wanted) (\<lambda>error. returnM False) s"
proof -
  from assms(1) obtain p where p: "page s = Some p" by auto
  show ?thesis
    using p ensure_connected [OF assms, of cenv]
    by (simp add: bb_switchToIframe_def tryCatch_def thenM_def bindM_def)
qed

text \<open>When every bounding box is answered, the loop computes \<open>largestOf\<close> and keeps the page.\<close>

lemma largestIframeLoop_run:
  assumes "\<forall>i \<in> set ifs. \<exists>bx. boundingBox i = Ok bx"
  shows "\<exists>s'. largestIframeLoop ifs cur m s = (Returned (fst (largestOf ifs cur m)), s')
              \<and> page s' = page s"
  using assms
proof (induction ifs arbitrary: cur m s)
  case Nil
  show ?case by (simp add: returnM_def)
next
  case (Cons i rest)
  from Cons.prems obtain bx where bx: "boundingBox i = Ok bx" by auto
  from Cons.prems have rest: "\<forall>i \<in> set rest. \<exists>bx. boundingBox i = Ok bx" by simp
  let ?s1 = "s\<lparr>trace := trace s @ [''iframe.boundingBox'']\<rparr>"
  have keep: "page ?s1 = page s" by simp
  show ?case
  proof (cases bx)
    case None
    with bx Cons.IH [OF rest, of cur m ?s1] show ?thesis
      by (simp add: iframeArea_def bindM_def perform_def)
  next
    case (Some b)
    show ?thesis
    proof (cases "width b * height b > m \<and> width b * height b > 400 * 400")
      case True
      with bx Some Cons.IH [OF rest, of "Some i" "width b * height b" ?s1] show ?thesis
        by (simp add: iframeArea_def bindM_def perform_def)
    next
      case False
      with bx Some Cons.IH [OF rest, of cur m ?s1] show ?thesis
        by (auto simp add: iframeArea_def bindM_def perform_def)
    qed
  qed
qed

text \<open>
  What the loop has found at its end: the running maximum never decreases, it bounds
  every area above the threshold, and the chosen iframe is either the one held before
  or an iframe of the list whose area is the maximum and exceeds the threshold.
\<close>

lemma largestOf_spec:
  assumes "largestOf ifs cur m = (r, m')"
  shows "m \<le> m'
    \<and> (\<forall>i \<in> set ifs. \<forall>a. iframeArea i = Some a \<longrightarrow> a > 400 * 400 \<longrightarrow> a \<le> m')
    \<and> ((r = cur \<and> m' = m) \<or> (\<exists>c \<in> set ifs. r = Some c \<and> iframeArea c = Some m' \<and> m' > 400 * 400))"
  using assms
proof (induction ifs arbitrary: cur m)
  case Nil
  then show ?case by simp
next
  case (Cons i rest)
  show ?case
  proof (cases "iframeArea i")
    case None
    with Cons.prems have "largestOf rest cur m = (r, m')" by simp
    from Cons.IH [OF this] None show ?thesis by auto
  next
    case (Some a)
    show ?thesis
    proof (cases "a > m \<and> a > 400 * 400")
      case True
      with Cons.prems Some have "largestOf rest (Some i) a = (r, m')" by simp
      from Cons.IH [OF this] Some True show ?thesis by auto
    next
      case False
      with Cons.prems Some have "largestOf rest cur m = (r, m')"
        by (simp split: if_splits)
      from Cons.IH [OF this] Some False show ?thesis by auto
    qed
  qed
qed

lemma largestOf_none:
  assumes "fst (largestOf ifs None 0) = None"
  shows "\<forall>i \<in> set ifs. \<forall>a. iframeArea i = Some a \<longrightarrow> a \<le> 400 * 400"
proof -
  obtain m' where run: "largestOf ifs None 0 = (None, m')"
    using assms by (cases "largestOf ifs None 0") simp
  from largestOf_spec [OF run] have zero: "m' = 0"
    and bound: "\<forall>i \<in> set ifs. \<forall>a. iframeArea i = Some a \<longrightarrow> a > 400 * 400 \<longrightarrow> a \<le> m'"
    by auto
  show ?thesis
  proof (intro ballI allI impI)
    fix i a assume here: "i \<in> set ifs" "iframeArea i = Some a"
    show "a \<le> 400 * 400"
    proof (rule ccontr)
      assume "\<not> a \<le> 400 * 400"
      then have big: "a > 400 * 400" by simp
      with bound here have "a \<le> m'" by blast
      with zero big show False by simp
    qed
  qed
qed

lemma largestOf_some:
  assumes "fst (largestOf ifs None 0) = Some c"
  shows "c \<in> set ifs \<and> (\<exists>a. iframeArea c = Some a \<and> a > 400 * 400
           \<and> (\<forall>i \<in> set ifs. \<forall>a'. iframeArea i = Some a' \<longrightarrow> a' \<le> a))"
proof -
  obtain m' where run: "largestOf ifs None 0 = (Some c, m')"
    using assms by (cases "largestOf ifs None 0") simp
  from largestOf_spec [OF run]
  have bound: "\<forall>i \<in> set ifs. \<forall>a. iframeArea i = Some a \<longrightarrow> a > 400 * 400 \<longrightarrow> a \<le> m'"
    and chosen: "c \<in> set ifs" "iframeArea c = Some m'" "m' > 400 * 400"
    by auto
  have "\<forall>i \<in> set ifs. \<forall>a'. iframeArea i = Some a' \<longrightarrow> a' \<le> m'"
  proof (intro ballI allI impI)
    fix i a' assume "i \<in> set ifs" "iframeArea i = Some a'"
    with bound chosen(3) show "a' \<le> m'"
      by (cases "a' > 400 * 400") auto
  qed
  with chosen show ?thesis by blast
qed


lemma enterFrame_result:
  "enterFrame c s =
     (case contentFrame c of
        Ok None \<Rightarrow> (Returned False, s\<lparr>trace := trace s @ [''iframe.contentFrame'']\<rparr>)
      | Ok (Some f) \<Rightarrow> (Returned True, s\<lparr>trace := trace s @ [''iframe.contentFrame''], page := Some f\<rparr>)
      | Fail e \<Rightarrow> (Threw e, s\<lparr>trace := trace s @ [''iframe.contentFrame'']\<rparr>))"
  by (simp add: enterFrame_def bindM_def perform_def split: reply.splits option.splits)

lemma switchToFrame_scan:
  assumes "queryIframes env = Ok ifs" and "\<forall>i \<in> set ifs. \<exists>bx. boundingBox i = Ok bx"
  shows "\<exists>s1. page s1 = page s \<and>
           switchToFrame env None s =
             (case fst (largestOf ifs None 0) of
                None \<Rightarrow> (Returned False, s1)
              | Some c \<Rightarrow> enterFrame c s1)"
proof (cases ifs)
  case Nil
  with assms(1) show ?thesis
    by (simp add: switchToFrame_def orElse_def bindM_def returnM_def perform_def)
next
  case (Cons i rest)
  let ?s0 = "s\<lparr>trace := trace s @ [''page.$$ iframe'']\<rparr>"
  from largestIframeLoop_run [OF assms(2), of None 0 ?s0]
  obtain s1 where loop: "largestIframeLoop ifs None 0 ?s0 = (Returned (fst (largestOf ifs None 0)), s1)"
    and keep: "page s1 = page ?s0" by blast
  have "switchToFrame env None s =
          (case fst (largestOf ifs None 0) of
             None \<Rightarrow> (Returned False, s1)
           | Some c \<Rightarrow> enterFrame c s1)"
    using assms(1) Cons loop
    by (simp add: switchToFrame_def orElse_def bindM_def returnM_def perform_def
        split: option.splits)
  with keep show ?thesis by auto
qed

lemma switch_run:
  assumes "queryIframes env = Ok ifs" and "\<forall>i \<in> set ifs. \<exists>bx. boundingBox i = Ok bx"
      and "run = tryCatch (switchToFrame env None) (\<lambda>error. returnM False) s"
  shows "(fst run = Returned True \<longrightarrow>
            (\<exists>c f a. c \<in> set ifs \<and> iframeArea c = Some a \<and> a > 400 * 400
               \<and> (\<forall>i \<in> set ifs. \<forall>a'. iframeArea i = Some a' \<longrightarrow> a' \<le> a)
               \<and> contentFrame c = Ok (Some f) \<and> page (snd run) = Some f))
       \<and> (fst run = Returned False \<longrightarrow> page (snd run) = page s)
       \<and> ((\<forall>i \<in> set ifs. \<forall>a. iframeArea i = Some a \<longrightarrow> a \<le> 400 * 400) \<longrightarrow>
            fst run = Returned False)
       \<and> ((\<exists>i \<in> set ifs. \<exists>a. iframeArea i = Some a \<and> a > 400 * 400) \<longrightarrow>
            (\<forall>i \<in> set ifs. \<exists>f. contentFrame i = Ok (Some f)) \<longrightarrow>
            fst run = Returned True)"
proof -
  from switchToFrame_scan [OF assms(1,2), of s]
  obtain s1 where keep: "page s1 = page s"
    and scan: "switchToFrame env None s =
             (case fst (largestOf ifs None 0) of
                None \<Rightarrow> (Returned False, s1)
              | Some c \<Rightarrow> enterFrame c s1)" by blast
  show ?thesis
  proof (cases "fst (largestOf ifs None 0)")
    case None
    from largestOf_none [OF None]
    have small: "\<forall>i \<in> set ifs. \<forall>a. iframeArea i = Some a \<longrightarrow> a \<le> 400 * 400" .
    have "run = (Returned False, s1)"
      using assms(3) scan None by (simp add: tryCatch_def)
    with keep small show ?thesis by fastforce
  next
    case (Some c)
    from largestOf_some [OF Some]
    obtain a where chosen: "c \<in> set ifs" "iframeArea c = Some a" "a > 400 * 400"
      "\<forall>i \<in> set ifs. \<forall>a'. iframeArea i = Some a' \<longrightarrow> a' \<le> a" by blast
    have notsmall: "\<not> (\<forall>i \<in> set ifs. \<forall>a. iframeArea i = Some a \<longrightarrow> a \<le> 400 * 400)"
      using chosen(1,2,3) by fastforce
    have run: "run = tryCatch (enterFrame c) (\<lambda>error. returnM False) s1"
      using assms(3) scan Some by (simp add: tryCatch_def)
    show ?thesis
    proof (cases "contentFrame c")
      case (Fail e)
      with run have "run = (Returned False, s1\<lparr>trace := trace s1 @ [''iframe.contentFrame'']\<rparr>)"
        by (simp add: enterFrame_result tryCatch_def returnM_def)
      with keep notsmall chosen(1) Fail show ?thesis by fastforce
    next
      case (Ok frame)
      show ?thesis
      proof (cases frame)
        case None
        with run Ok have "run = (Returned False, s1\<lparr>trace := trace s1 @ [''iframe.contentFrame'']\<rparr>)"
          by (simp add: enterFrame_result tryCatch_def)
        with keep notsmall chosen(1) Ok None show ?thesis by fastforce
      next
        case (Some f)
        with run Ok have "run = (Returned True,
            s1\<lparr>trace := trace s1 @ [''iframe.contentFrame''], page := Some f\<rparr>)"
          by (simp add: enterFrame_result tryCatch_def)
        with chosen Ok Some notsmall show ?thesis by fastforce
      qed
    qed
  qed
qed


text \<open>
  C8. \<^verbatim>\<open>switchToIframe\<close> returns a boolean whatever the backend answers, in both
  sessions. Without a selector, on a page (remote: of a connected session) whose iframes
  all answer \<^verbatim>\<open>boundingBox()\<close>: when it returns true, the page of the session has become
  the content frame of an iframe whose area exceeds 400 * 400 and is the largest of all
  areas; when it returns false, the page of the session is unchanged; it returns false
  when no iframe (none at all, or none with a bounding box) has an area above
  400 * 400, and true when one has and the content frames are there.
\<close>

theorem switchToIframe_largest:
  "(\<exists>b s'. bb_switchToIframe cenv env wanted s = (Returned b, s'))
   \<and> (\<exists>b t'. local_switchToIframe env wanted t = (Returned b, t'))
   \<and> (queryIframes env = Ok iframes \<longrightarrow> (\<forall>i \<in> set iframes. \<exists>bx. boundingBox i = Ok bx) \<longrightarrow>
        page s \<noteq> None \<longrightarrow> cdpSession s \<noteq> None \<longrightarrow>
        (fst (bb_switchToIframe cenv env None s) = Returned True \<longrightarrow>
          (\<exists>c f a. c \<in> set iframes \<and> iframeArea c = Some a \<and> a > 400 * 400
             \<and> (\<forall>i \<in> set iframes. \<forall>a'. iframeArea i = Some a' \<longrightarrow> a' \<le> a)
             \<and> contentFrame c = Ok (Some f) \<and> page (snd (bb_switchToIframe cenv env None s)) = Some f))
        \<and> (fst (bb_switchToIframe cenv env None s) = Returned False \<longrightarrow> page (snd (bb_switchToIframe cenv env None s)) = page s)
        \<and> ((\<forall>i \<in> set iframes. \<forall>a. iframeArea i = Some a \<longrightarrow> a \<le> 400 * 400) \<longrightarrow>
             fst (bb_switchToIframe cenv env None s) = Returned False)
        \<and> ((\<exists>i \<in> set iframes. \<exists>a. iframeArea i = Some a \<and> a > 400 * 400) \<longrightarrow>
             (\<forall>i \<in> set iframes. \<exists>f. contentFrame i = Ok (Some f)) \<longrightarrow>
             fst (bb_switchToIframe cenv env None s) = Returned True))
   \<and> (queryIframes env = Ok iframes \<longrightarrow> (\<forall>i \<in> set iframes. \<exists>bx. boundingBox i = Ok bx) \<longrightarrow>
        (fst (local_switchToIframe env None t) = Returned True \<longrightarrow>
          (\<exists>c f a. c \<in> set iframes \<and> iframeArea c = Some a \<and> a > 400 * 400
             \<and> (\<forall>i \<in> set iframes. \<forall>a'. iframeArea i = Some a' \<longrightarrow> a' \<le> a)
             \<and> contentFrame c = Ok (Some f) \<and> page (snd (local_switchToIframe env None t)) = Some f))
        \<and> (fst (local_switchToIframe env None t) = Returned False \<longrightarrow> page (snd (local_switchToIframe env None t)) = page t)
        \<and> ((\<forall>i \<in> set iframes. \<forall>a. iframeArea i = Some a \<longrightarrow> a \<le> 400 * 400) \<longrightarrow>
             fst (local_switchToIframe env None t) = Returned False)
        \<and> ((\<exists>i \<in> set iframes. \<exists>a. iframeArea i = Some a \<and> a > 400 * 400) \<longrightarrow>
             (\<forall>i \<in> set iframes. \<exists>f. contentFrame i = Ok (Some f)) \<longrightarrow>
             fst (local_switchToIframe env None t) = Returned True))"
proof (intro conjI)
  show "\<exists>b s'. bb_switchToIframe cenv env wanted s = (Returned b, s')"
    by (rule bb_switchToIframe_returns)
  show "\<exists>b t'. local_switchToIframe env wanted t = (Returned b, t')"
    by (rule local_switchToIframe_returns)
  show "queryIframes env = Ok iframes \<longrightarrow> (\<forall>i \<in> set iframes. \<exists>bx. boundingBox i = Ok bx) \<longrightarrow>
        page s \<noteq> None \<longrightarrow> cdpSession s \<noteq> None \<longrightarrow>
        (fst (bb_switchToIframe cenv env None s) = Returned True \<longrightarrow>
          (\<exists>c f a. c \<in> set iframes \<and> iframeArea c = Some a \<and> a > 400 * 400
             \<and> (\<forall>i \<in> set iframes. \<forall>a'. iframeArea i = Some a' \<longrightarrow> a' \<le> a)
             \<and> contentFrame c = Ok (Some f) \<and> page (snd (bb_switchToIframe cenv env None s)) = Some f))
        \<and> (fst (bb_switchToIframe cenv env None s) = Returned False \<longrightarrow> page (snd (bb_switchToIframe cenv env None s)) = page s)
        \<and> ((\<forall>i \<in> set iframes. \<forall>a. iframeArea i = Some a \<longrightarrow> a \<le> 400 * 400) \<longrightarrow>
             fst (bb_switchToIframe cenv env None s) = Returned False)
        \<and> ((\<exists>i \<in> set iframes. \<exists>a. iframeArea i = Some a \<and> a > 400 * 400) \<longrightarrow>
             (\<forall>i \<in> set iframes. \<exists>f. contentFrame i = Ok (Some f)) \<longrightarrow>
             fst (bb_switchToIframe cenv env None s) = Returned True)"
  proof (intro impI)
    assume q: "queryIframes env = Ok iframes" "\<forall>i \<in> set iframes. \<exists>bx. boundingBox i = Ok bx"
      and conn: "page s \<noteq> None" "cdpSession s \<noteq> None"
    show "(fst (bb_switchToIframe cenv env None s) = Returned True \<longrightarrow>
          (\<exists>c f a. c \<in> set iframes \<and> iframeArea c = Some a \<and> a > 400 * 400
             \<and> (\<forall>i \<in> set iframes. \<forall>a'. iframeArea i = Some a' \<longrightarrow> a' \<le> a)
             \<and> contentFrame c = Ok (Some f) \<and> page (snd (bb_switchToIframe cenv env None s)) = Some f))
        \<and> (fst (bb_switchToIframe cenv env None s) = Returned False \<longrightarrow> page (snd (bb_switchToIframe cenv env None s)) = page s)
        \<and> ((\<forall>i \<in> set iframes. \<forall>a. iframeArea i = Some a \<longrightarrow> a \<le> 400 * 400) \<longrightarrow>
             fst (bb_switchToIframe cenv env None s) = Returned False)
        \<and> ((\<exists>i \<in> set iframes. \<exists>a. iframeArea i = Some a \<and> a > 400 * 400) \<longrightarrow>
             (\<forall>i \<in> set iframes. \<exists>f. contentFrame i = Ok (Some f)) \<longrightarrow>
             fst (bb_switchToIframe cenv env None s) = Returned True)"
      by (rule switch_run [OF q]) (rule bb_switchToIframe_connected [OF conn])
  qed
  show "queryIframes env = Ok iframes \<longrightarrow> (\<forall>i \<in> set iframes. \<exists>bx. boundingBox i = Ok bx) \<longrightarrow>
        (fst (local_switchToIframe env None t) = Returned True \<longrightarrow>
          (\<exists>c f a. c \<in> set iframes \<and> iframeArea c = Some a \<and> a > 400 * 400
             \<and> (\<forall>i \<in> set iframes. \<forall>a'. iframeArea i = Some a' \<longrightarrow> a' \<le> a)
             \<and> contentFrame c = Ok (Some f) \<and> page (snd (local_switchToIframe env None t)) = Some f))
        \<and> (fst (local_switchToIframe env None t) = Returned False \<longrightarrow> page (snd (local_switchToIframe env None t)) = page t)
        \<and> ((\<forall>i \<in> set iframes. \<forall>a. iframeArea i = Some a \<longrightarrow> a \<le> 400 * 400) \<longrightarrow>
             fst (local_switchToIframe env None t) = Returned False)
        \<and> ((\<exists>i \<in> set iframes. \<exists>a. iframeArea i = Some a \<and> a > 400 * 400) \<longrightarrow>
             (\<forall>i \<in> set iframes. \<exists>f. contentFrame i = Ok (Some f)) \<longrightarrow>
             fst (local_switchToIframe env None t) = Returned True)"
  proof (intro impI)
    assume q: "queryIframes env = Ok iframes" "\<forall>i \<in> set iframes. \<exists>bx. boundingBox i = Ok bx"
    show "(fst (local_switchToIframe env None t) = Returned True \<longrightarrow>
          (\<exists>c f a. c \<in> set iframes \<and> iframeArea c = Some a \<and> a > 400 * 400
             \<and> (\<forall>i \<in> set iframes. \<forall>a'. iframeArea i = Some a' \<longrightarrow> a' \<le> a)
             \<and> contentFrame c = Ok (Some f) \<and> page (snd (local_switchToIframe env None t)) = Some f))
        \<and> (fst (local_switchToIframe env None t) = Returned False \<longrightarrow> page (snd (local_switchToIframe env None t)) = page t)
        \<and> ((\<forall>i \<in> set iframes. \<forall>a. iframeArea i = Some a \<longrightarrow> a \<le> 400 * 400) \<longrightarrow>
             fst (local_switchToIframe env None t) = Returned False)
        \<and> ((\<exists>i \<in> set iframes. \<exists>a. iframeArea i = Some a \<and> a > 400 * 400) \<longrightarrow>
             (\<forall>i \<in> set iframes. \<exists>f. contentFrame i = Ok (Some f)) \<longrightarrow>
             fst (local_switchToIframe env None t) = Returned True)"
      by (rule switch_run [OF q]) (simp add: local_switchToIframe_def)
  qed
qed

text \<open>
  The example of the specification: of two iframes of 100 by 100 and 800 by 600 the
  second is entered; with no iframe, or only the small one, the page stays.
\<close>

theorem switchToIframe_largest_witness:
  "fst (bb_switchToIframe noCdp (pageWithIframes [smallIframe, gameIframe]) None connectedRemote) = Returned True
   \<and> page (snd (bb_switchToIframe noCdp (pageWithIframes [smallIframe, gameIframe]) None connectedRemote)) = Some 12
   \<and> contentFrame gameIframe = Ok (Some 12)
   \<and> fst (local_switchToIframe (pageWithIframes [smallIframe, gameIframe]) None connectedLocal) = Returned True
   \<and> page (snd (local_switchToIframe (pageWithIframes [smallIframe, gameIframe]) None connectedLocal)) = Some 12
   \<and> fst (bb_switchToIframe noCdp (pageWithIframes []) None connectedRemote) = Returned False
   \<and> page (snd (bb_switchToIframe noCdp (pageWithIframes []) None connectedRemote)) = page connectedRemote
   \<and> fst (local_switchToIframe (pageWithIframes [smallIframe]) None connectedLocal) = Returned False
   \<and> page (snd (local_switchToIframe (pageWithIframes [smallIframe]) None connectedLocal)) = page connectedLocal"
proof -
  have conn: "page connectedRemote \<noteq> None" "cdpSession connectedRemote \<noteq> None"
    by (simp_all add: connectedRemote_def)
  have two: "queryIframes (pageWithIframes [smallIframe, gameIframe]) = Ok [smallIframe, gameIframe]"
    "\<forall>i \<in> set [smallIframe, gameIframe]. \<exists>bx. boundingBox i = Ok bx"
    "\<exists>i \<in> set [smallIframe, gameIframe]. \<exists>a. iframeArea i = Some a \<and> a > 400 * 400"
    "\<forall>i \<in> set [smallIframe, gameIframe]. \<exists>f. contentFrame i = Ok (Some f)"
    by (simp_all add: pageWithIframes_def smallIframe_def gameIframe_def iframeArea_def)
  have none: "queryIframes (pageWithIframes []) = Ok []"
    "\<forall>i \<in> set ([] :: iframe list). \<exists>bx. boundingBox i = Ok bx"
    "\<forall>i \<in> set ([] :: iframe list). \<forall>a. iframeArea i = Some a \<longrightarrow> a \<le> 400 * 400"
    by (simp_all add: pageWithIframes_def)
  have small: "queryIframes (pageWithIframes [smallIframe]) = Ok [smallIframe]"
    "\<forall>i \<in> set [smallIframe]. \<exists>bx. boundingBox i = Ok bx"
    "\<forall>i \<in> set [smallIframe]. \<forall>a. iframeArea i = Some a \<longrightarrow> a \<le> 400 * 400"
    by (simp_all add: pageWithIframes_def smallIframe_def iframeArea_def)
  note both = switchToIframe_largest [where env = "pageWithIframes [smallIframe, gameIframe]"
      and iframes = "[smallIframe, gameIframe]" and s = connectedRemote and t = connectedLocal
      and cenv = noCdp]
  from both two conn
  have c1: "fst (bb_switchToIframe noCdp (pageWithIframes [smallIframe, gameIframe]) None connectedRemote) = Returned True"
    by blast
  from both two
  have c2: "fst (local_switchToIframe (pageWithIframes [smallIframe, gameIframe]) None connectedLocal) = Returned True"
    by blast
  have p1: "page (snd (bb_switchToIframe noCdp (pageWithIframes [smallIframe, gameIframe]) None connectedRemote)) = Some 12"
    and p2: "page (snd (local_switchToIframe (pageWithIframes [smallIframe, gameIframe]) None connectedLocal)) = Some 12"
    and p3: "contentFrame gameIframe = Ok (Some 12)"
    by (simp_all add: bb_switchToIframe_def local_switchToIframe_def switchToFrame_def
        enterFrame_def orElse_def ensureCDPConnection_def monad_defs pageWithIframes_def
        smallIframe_def gameIframe_def connectedRemote_def connectedLocal_def)
  note empty = switchToIframe_largest [where env = "pageWithIframes []"
      and iframes = "[]" and s = connectedRemote and cenv = noCdp]
  from empty none conn
  have c3: "fst (bb_switchToIframe noCdp (pageWithIframes []) None connectedRemote) = Returned False"
    by blast
  with empty none conn
  have c4: "page (snd (bb_switchToIframe noCdp (pageWithIframes []) None connectedRemote)) = page connectedRemote"
    by blast
  note little = switchToIframe_largest [where env = "pageWithIframes [smallIframe]"
      and iframes = "[smallIframe]" and t = connectedLocal]
  from little small
  have c5: "fst (local_switchToIframe (pageWithIframes [smallIframe]) None connectedLocal) = Returned False"
    by blast
  with little small
  have c6: "page (snd (local_switchToIframe (pageWithIframes [smallIframe]) None connectedLocal)) = page connectedLocal"
    by blast
  show ?thesis using c1 p1 p3 c2 p2 c3 c4 c5 c6 by blast
qed

end

